theory Spec2Isabelle
  imports Complex_Main "HOL-Library.AList" "HOL-Library.Char_ord" "HOL-Library.List_Lexorder"
begin

section \<open>Text helpers of race_analyzer.py\<close>

text \<open>
  Python strings are modelled as \<open>string\<close> with one \<open>char\<close> per code point, so the
  model covers message texts whose code points are below 256. On those, the
  case-insensitive matching of \<open>str.contains(..., case=False)\<close> is ASCII case folding
  for the letters of the keywords used here, and \<open>\d\<close> is the class \<open>0-9\<close>.
\<close>

definition upper_char :: "char \<Rightarrow> char" where
  "upper_char c =
     (case map_of (zip ''abcdefghijklmnopqrstuvwxyz'' ''ABCDEFGHIJKLMNOPQRSTUVWXYZ'') c of
        None \<Rightarrow> c | Some u \<Rightarrow> u)"

definition upper :: "string \<Rightarrow> string" where
  "upper s = map upper_char s"

fun starts_with :: "string \<Rightarrow> string \<Rightarrow> bool" where
  "starts_with [] s = True"
| "starts_with (p # ps) [] = False"
| "starts_with (p # ps) (c # cs) = (p = c \<and> starts_with ps cs)"

text \<open>Python's \<open>p in s\<close> on strings: \<open>p\<close> occurs in \<open>s\<close> as a contiguous substring.\<close>

fun contains :: "string \<Rightarrow> string \<Rightarrow> bool" where
  "contains p [] = (p = [])"
| "contains p (c # cs) = (starts_with p (c # cs) \<or> contains p cs)"

text \<open>
  \<open>Series.str.contains('K1|K2|...', case=False, na=False)\<close> on one cell: a missing cell
  (NaN, here \<open>None\<close>) does not match; a text matches when one of the alternatives, which
  are plain upper-case words, occurs in it with case ignored.
\<close>

definition contains_any_ci :: "string list \<Rightarrow> string option \<Rightarrow> bool" where
  "contains_any_ci kws cell =
     (case cell of None \<Rightarrow> False
      | Some s \<Rightarrow> list_ex (\<lambda>k. contains k (upper s)) kws)"

definition is_digit :: "char \<Rightarrow> bool" where
  "is_digit c = (c \<in> set ''0123456789'')"

definition is_time_char :: "char \<Rightarrow> bool" where
  "is_time_char c = (c \<in> set ''0123456789:.'')"

text \<open>
  The regular expressions of the source all have the shape \<open>LITERAL (CLASS+)\<close>.
  \<open>match_at lit cls s\<close> matches at the start of \<open>s\<close>: the group (the longest run of
  class characters after the literal, at least one) and the text left after the match.
\<close>

definition match_at :: "string \<Rightarrow> (char \<Rightarrow> bool) \<Rightarrow> string \<Rightarrow> (string \<times> string) option" where
  "match_at lit cls s =
     (if starts_with lit s
      then (let r = drop (length lit) s; g = takeWhile cls r
            in if g = [] then None else Some (g, dropWhile cls r))
      else None)"

text \<open>\<open>re.search\<close>: the group of the leftmost match, if any.\<close>

fun re_search :: "string \<Rightarrow> (char \<Rightarrow> bool) \<Rightarrow> string \<Rightarrow> string option" where
  "re_search lit cls [] = map_option fst (match_at lit cls [])"
| "re_search lit cls (c # cs) =
     (case match_at lit cls (c # cs) of
        Some (g, rest) \<Rightarrow> Some g
      | None \<Rightarrow> re_search lit cls cs)"

text \<open>\<open>re.findall\<close>: the groups of all non-overlapping matches, left to right; the
  scan resumes where the previous match ended.\<close>

function re_findall :: "string \<Rightarrow> (char \<Rightarrow> bool) \<Rightarrow> string \<Rightarrow> string list" where
  "re_findall lit cls [] = []"
| "re_findall lit cls (c # cs) =
     (case match_at lit cls (c # cs) of
        Some (g, rest) \<Rightarrow> g # re_findall lit cls rest
      | None \<Rightarrow> re_findall lit cls cs)"
  by pat_completeness auto
termination
proof (relation "measure (\<lambda>(lit, cls, s). length s)")
  show "wf (measure (\<lambda>(lit, cls, s). length s))" by simp
next
  fix lit :: string and cls :: "char \<Rightarrow> bool" and c :: char and cs :: string
  show "((lit, cls, cs), (lit, cls, c # cs)) \<in> measure (\<lambda>(lit, cls, s). length s)"
    by simp
next
  fix lit :: string and cls :: "char \<Rightarrow> bool" and c cs x2 g rest
  assume m: "match_at lit cls (c # cs) = Some x2" and x2: "(g, rest) = x2"
  let ?r = "drop (length lit) (c # cs)"
  from m x2 have g: "takeWhile cls ?r \<noteq> []" and rest: "rest = dropWhile cls ?r"
    by (auto simp: match_at_def Let_def split: if_splits)
  have "length (takeWhile cls ?r) + length (dropWhile cls ?r) = length ?r"
    by (metis length_append takeWhile_dropWhile_id)
  moreover from g have "0 < length (takeWhile cls ?r)" by simp
  ultimately have "length (dropWhile cls ?r) < length ?r" by linarith
  then have "length rest < length (c # cs)" using rest by simp
  then show "((lit, cls, rest), (lit, cls, c # cs)) \<in> measure (\<lambda>(lit, cls, s). length s)"
    by simp
qed

text \<open>Decimal reading and printing: \<open>int(s)\<close> on a digit string, \<open>str(n)\<close>, and the
  format \<open>{n:+d}\<close>.\<close>

definition digit_val :: "char \<Rightarrow> int" where
  "digit_val c = (case map_of (zip ''0123456789'' [0, 1, 2, 3, 4, 5, 6, 7, 8, 9]) c of
                    None \<Rightarrow> 0 | Some d \<Rightarrow> d)"

definition int_of_digits :: "string \<Rightarrow> int" where
  "int_of_digits s = foldl (\<lambda>n c. 10 * n + digit_val c) 0 s"

definition digit_char :: "nat \<Rightarrow> char" where
  "digit_char d = ''0123456789'' ! d"

fun str_nat :: "nat \<Rightarrow> string" where
  "str_nat n = (if n < 10 then [digit_char n] else str_nat (n div 10) @ [digit_char (n mod 10)])"

declare str_nat.simps [simp del]

definition str_int :: "int \<Rightarrow> string" where
  "str_int i = (if i < 0 then CHR ''-'' # str_nat (nat (- i)) else str_nat (nat i))"

definition str_int_signed :: "int \<Rightarrow> string" where
  "str_int_signed i = (if i < 0 then str_int i else CHR ''+'' # str_int i)"

definition str_int_opt :: "int option \<Rightarrow> string" where
  "str_int_opt v = (case v of None \<Rightarrow> ''None'' | Some i \<Rightarrow> str_int i)"

text \<open>\<open>str(cell)\<close> on a text cell: a missing cell (NaN) prints as \<open>nan\<close>.\<close>

definition str_cell :: "string option \<Rightarrow> string" where
  "str_cell c = (case c of None \<Rightarrow> ''nan'' | Some s \<Rightarrow> s)"

text \<open>\<open>max\<close> and \<open>min\<close> of a Python list. Every call in the source is guarded by a
  test that the list is not empty (on the empty list Python raises ValueError).\<close>

definition py_max :: "'a::linorder list \<Rightarrow> 'a" where
  "py_max xs = fold max (tl xs) (hd xs)"

definition py_min :: "'a::linorder list \<Rightarrow> 'a" where
  "py_min xs = fold min (tl xs) (hd xs)"

text \<open>\<open>Series.unique()\<close>: the distinct values in order of first appearance.\<close>

fun unique :: "'a list \<Rightarrow> 'a list" where
  "unique [] = []"
| "unique (x # xs) = x # unique (filter (\<lambda>y. y \<noteq> x) xs)"

section \<open>Data model\<close>

text \<open>
  The tables are pandas data frames read from CSV; a row is a record, a cell that may be
  missing (NaN) is an \<open>option\<close>. Positions, lap numbers and tyre ages are whole numbers
  stored in float columns; speeds are speed-trap readings in km/h, modelled as rationals
  (exact arithmetic in place of double arithmetic). \<open>LapNumber\<close> is part of the key of a
  lap record (one row per driver and lap) and is never missing.
\<close>

record lap_record =
  Driver :: string
  LapNumber :: int
  LapTime :: "string option"
  Position :: "int option"
  Sector1Time :: "string option"
  Sector2Time :: "string option"
  Sector3Time :: "string option"
  SpeedI1 :: "rat option"
  SpeedI2 :: "rat option"
  SpeedFL :: "rat option"
  SpeedST :: "rat option"
  Compound :: "string option"
  TyreLife :: "int option"
  IsPersonalBest :: bool
  TrackStatus :: "int option"
  PitInTime :: "string option"

record rc_message =
  rc_Lap :: "int option"
  rc_Time :: string
  rc_Message :: "string option"
  rc_Category :: string
  rc_Sector :: "int option"

record result_row =
  DriverNumber :: int
  Abbreviation :: string

text \<open>The analyzer object: each table is \<open>None\<close> until \<open>load_race_data\<close> has read it.\<close>

record analyzer =
  lap_data :: "lap_record list option"
  race_control :: "rc_message list option"
  session_results :: "result_row list option"

text \<open>
  Two collaborators are outside the repository and are parameters of the model:
  \<^item> \<open>_get_car_telemetry_data\<close> asks the telemetry service for the channel statistics of
    one driver and lap and returns \<open>None\<close> on any failure: a function
    \<open>string \<Rightarrow> int \<Rightarrow> car_stats option\<close>;
  \<^item> \<open>pd.to_timedelta(cell).total_seconds()\<close> parses a duration cell: it raises (here
    \<open>None\<close>), or yields seconds, or yields NaN (for a missing cell, whose timedelta is NaT).
\<close>

type_synonym car_stats = "(string \<times> rat option) list"

datatype pyfloat = Num rat | NaN

type_synonym to_seconds = "string option \<Rightarrow> pyfloat option"

text \<open>The free-text anomaly descriptions, by their format string and the number printed:
  \<^item> \<open>SpeedDrop d\<close>: \<open>"Significant speed drop: {d:.1f} km/h"\<close>
  \<^item> \<open>PositionDrop d\<close>: \<open>"Position drop: {d} positions"\<close>
  \<^item> \<open>SpeedChange d\<close>: \<open>"Speed change: {d:+.1f} km/h"\<close>
  \<^item> \<open>LapTimeChange d\<close>: \<open>"Significant lap time change: {d:+.3f}s"\<close>
  \<^item> \<open>FieldSpeedChange f d\<close>: \<open>"Significant {f} change: {d:+.1f} km/h"\<close>
  \<^item> \<open>FieldSectorChange f d\<close>: \<open>"Significant {f} change: {d:+.3f}s"\<close>\<close>

datatype anomaly =
    SpeedDrop rat
  | PositionDrop int
  | SpeedChange rat
  | LapTimeChange rat
  | FieldSpeedChange string rat
  | FieldSectorChange string rat

record telemetry_data =
  lap_number :: int
  lap_time :: string
  position :: "int option"
  sector1_time :: string
  sector2_time :: string
  sector3_time :: string
  speed_i1 :: "rat option"
  speed_i2 :: "rat option"
  speed_fl :: "rat option"
  speed_st :: "rat option"
  compound :: "string option"
  tyre_life :: "int option"
  is_personal_best :: bool
  track_status :: "int option"
  car_telemetry :: "car_stats option"

record speed_analysis =
  max_speed :: rat
  min_speed :: rat
  speed_variance :: rat
  incident_lap_speed :: "rat option"

record sector_analysis =
  slowest_sectors :: "(string \<times> string) list"
  incident_lap_sectors :: "(string \<times> string \<times> string) option"

record position_analysis =
  position_range :: string
  position_change :: int
  incident_lap_position :: "int option"

record tire_analysis =
  compounds_used :: "string option set"
  incident_lap_tire :: "(string option \<times> int option) option"
  tire_age_at_incident :: "int option"

text \<open>An empty dict \<open>{}\<close> in a field of the analysis is \<open>None\<close>.\<close>

record analysis =
  an_speed :: "speed_analysis option"
  an_sector :: "sector_analysis option"
  an_tire :: "tire_analysis option"
  an_position :: "position_analysis option"
  anomalies :: "anomaly list"

record driver_analysis =
  da_driver_number :: string
  da_lap_data :: "(int \<times> telemetry_data) list"
  da_analysis :: analysis

record incident =
  inc_lap :: "int option"
  inc_time :: string
  inc_message :: string
  inc_category :: string
  inc_drivers :: "string list"
  inc_steward_action :: string
  inc_telemetry_analysis :: "(string \<times> driver_analysis) list"

section \<open>Incident extractor and telemetry correlator\<close>

text \<open>\<open>_get_steward_action\<close>\<close>

definition get_steward_action :: "string \<Rightarrow> string" where
  "get_steward_action message =
     (if contains ''NO FURTHER ACTION'' message then ''No further action''
      else if contains ''UNDER INVESTIGATION'' message then ''Under investigation''
      else if contains ''WILL BE INVESTIGATED'' message then ''Will be investigated after race''
      else if contains ''DELETED'' message then ''Lap time deleted''
      else if contains ''NOTED'' message then ''Noted''
      else ''Unknown'')"

text \<open>\<open>_get_driver_from_car_number\<close>\<close>

definition get_driver_from_car_number :: "analyzer \<Rightarrow> string \<Rightarrow> string option" where
  "get_driver_from_car_number st car_number =
     (case session_results st of
        None \<Rightarrow> None
      | Some rows \<Rightarrow>
          map_option Abbreviation
            (find (\<lambda>r. DriverNumber r = int_of_digits car_number) rows))"

text \<open>The row selection \<open>lap_data[(Driver == d) & (LapNumber == n)]\<close> followed by
  \<open>.iloc[0]\<close> under the guard \<open>not lap_data.empty\<close>: the first such row, if any.\<close>

definition find_lap :: "lap_record list \<Rightarrow> string \<Rightarrow> int \<Rightarrow> lap_record option" where
  "find_lap laps d n = find (\<lambda>r. Driver r = d \<and> LapNumber r = n) laps"

text \<open>The per-lap dict built from a row, as both correlators build it. Dict keys
  \<open>lap_N\<close> are modelled by the lap number \<open>N\<close>.\<close>

definition telemetry_of_lap :: "lap_record \<Rightarrow> int \<Rightarrow> telemetry_data" where
  "telemetry_of_lap lap_info lap_num =
     \<lparr> lap_number = lap_num,
       lap_time = str_cell (LapTime lap_info),
       position = Position lap_info,
       sector1_time = str_cell (Sector1Time lap_info),
       sector2_time = str_cell (Sector2Time lap_info),
       sector3_time = str_cell (Sector3Time lap_info),
       speed_i1 = SpeedI1 lap_info,
       speed_i2 = SpeedI2 lap_info,
       speed_fl = SpeedFL lap_info,
       speed_st = SpeedST lap_info,
       compound = Compound lap_info,
       tyre_life = TyreLife lap_info,
       is_personal_best = IsPersonalBest lap_info,
       track_status = None,
       car_telemetry = None \<rparr>"

text \<open>The inner loop of \<open>_analyze_incident_telemetry\<close> over \<open>analysis_laps\<close>. The lap
  numbers of a window are distinct, so each dict assignment adds a new key at the end.\<close>

fun incident_window ::
  "(string \<Rightarrow> int \<Rightarrow> car_stats option) \<Rightarrow> lap_record list \<Rightarrow> string \<Rightarrow> int list
     \<Rightarrow> (int \<times> telemetry_data) list" where
  "incident_window car laps d [] = []"
| "incident_window car laps d (lap_num # rest) =
     (if lap_num \<le> 0 then incident_window car laps d rest
      else case find_lap laps d lap_num of
             None \<Rightarrow> incident_window car laps d rest
           | Some lap_info \<Rightarrow>
               (lap_num,
                (telemetry_of_lap lap_info lap_num)
                  \<lparr> track_status := Some (case TrackStatus lap_info of None \<Rightarrow> 1 | Some t \<Rightarrow> t),
                    car_telemetry := car d lap_num \<rparr>)
               # incident_window car laps d rest)"

text \<open>\<open>_analyze_telemetry_patterns\<close>. The dicts \<open>speeds\<close>, \<open>sector_times\<close>, \<open>positions\<close> and
  \<open>tire_data\<close> are association lists in insertion order; \<open>k in d\<close> and \<open>d.get(k)\<close> are
  \<open>map_of\<close>.\<close>

definition speeds_of :: "(int \<times> telemetry_data) list \<Rightarrow> (int \<times> rat) list" where
  "speeds_of td = List.map_filter (\<lambda>(k, d). map_option (Pair k) (speed_fl d)) td"

definition positions_of :: "(int \<times> telemetry_data) list \<Rightarrow> (int \<times> int) list" where
  "positions_of td = List.map_filter (\<lambda>(k, d). map_option (Pair k) (position d)) td"

definition sector_times_of ::
  "(int \<times> telemetry_data) list \<Rightarrow> (int \<times> string \<times> string \<times> string) list" where
  "sector_times_of td =
     map (\<lambda>(k, d). (k, sector1_time d, sector2_time d, sector3_time d))
       (filter (\<lambda>(k, d). sector1_time d \<noteq> ''N/A'') td)"

definition tire_data_of ::
  "(int \<times> telemetry_data) list \<Rightarrow> (int \<times> string option \<times> int option) list" where
  "tire_data_of td =
     map (\<lambda>(k, d). (k, compound d, tyre_life d))
       (filter (\<lambda>(k, d). compound d \<noteq> Some ''Unknown'') td)"

definition slowest_of :: "string \<Rightarrow> string list \<Rightarrow> (string \<times> string) list" where
  "slowest_of sector vals =
     (let sector_values = filter (\<lambda>v. v \<noteq> ''N/A'') vals
      in if sector_values = [] then [] else [(sector, py_max sector_values)])"

definition analyze_telemetry_patterns :: "(int \<times> telemetry_data) list \<Rightarrow> int \<Rightarrow> analysis" where
  "analyze_telemetry_patterns td incident_lap =
     (let speeds = speeds_of td;
          speed_values = map snd speeds;
          sector_times = sector_times_of td;
          positions = positions_of td;
          position_values = map snd positions;
          tire_data = tire_data_of td
      in \<lparr> an_speed =
             (if length speeds \<ge> 2
              then Some \<lparr> max_speed = py_max speed_values,
                          min_speed = py_min speed_values,
                          speed_variance = py_max speed_values - py_min speed_values,
                          incident_lap_speed = map_of speeds incident_lap \<rparr>
              else None),
           an_sector =
             (if length sector_times \<ge> 2
              then Some \<lparr> slowest_sectors =
                            slowest_of ''sector1'' (map (\<lambda>(k, a, b, c). a) sector_times)
                            @ slowest_of ''sector2'' (map (\<lambda>(k, a, b, c). b) sector_times)
                            @ slowest_of ''sector3'' (map (\<lambda>(k, a, b, c). c) sector_times),
                          incident_lap_sectors = map_of sector_times incident_lap \<rparr>
              else None),
           an_tire =
             (if tire_data \<noteq> []
              then Some \<lparr> compounds_used = set (map (\<lambda>(k, c, t). c) tire_data),
                          incident_lap_tire = map_of tire_data incident_lap,
                          tire_age_at_incident =
                            (case map_of tire_data incident_lap of
                               None \<Rightarrow> None | Some (c, t) \<Rightarrow> t) \<rparr>
              else None),
           an_position =
             (if length positions \<ge> 2
              then Some \<lparr> position_range =
                            str_int (py_min position_values) @ '' - ''
                            @ str_int (py_max position_values),
                          position_change = py_max position_values - py_min position_values,
                          incident_lap_position = map_of positions incident_lap \<rparr>
              else None),
           anomalies =
             (if length speeds \<ge> 2
              then (case (map_of speeds incident_lap, map_of speeds (incident_lap - 1)) of
                      (Some cur, Some prev) \<Rightarrow>
                        (let speed_drop = prev - cur
                         in if speed_drop > 20 then [SpeedDrop speed_drop] else [])
                    | _ \<Rightarrow> [])
              else [])
             @
             (if length positions \<ge> 2
              then (case (map_of positions incident_lap, map_of positions (incident_lap - 1)) of
                      (Some cur, Some prev) \<Rightarrow>
                        (let position_drop = cur - prev
                         in if position_drop > 0 then [PositionDrop position_drop] else [])
                    | _ \<Rightarrow> [])
              else []) \<rparr>)"

text \<open>\<open>_analyze_incident_telemetry\<close>. The result dict is keyed by driver abbreviation; an
  assignment to a key already present replaces its value in place, which is
  \<open>AList.update\<close>. \<open>not incident_lap\<close> holds for \<open>None\<close> and for lap 0.\<close>

definition incident_driver_step ::
  "(string \<Rightarrow> int \<Rightarrow> car_stats option) \<Rightarrow> analyzer \<Rightarrow> lap_record list \<Rightarrow> int
     \<Rightarrow> (string \<times> driver_analysis) list \<Rightarrow> string \<Rightarrow> (string \<times> driver_analysis) list" where
  "incident_driver_step car st laps incident_lap telemetry_analysis driver_num =
     (case get_driver_from_car_number st driver_num of
        None \<Rightarrow> telemetry_analysis
      | Some driver_abbrev \<Rightarrow>
          if driver_abbrev = [] then telemetry_analysis
          else
            (let analysis_laps = [incident_lap - 2, incident_lap - 1, incident_lap,
                                  incident_lap + 1, incident_lap + 2];
                 driver_telemetry = incident_window car laps driver_abbrev analysis_laps
             in if driver_telemetry = [] then telemetry_analysis
                else AList.update driver_abbrev
                       \<lparr> da_driver_number = driver_num,
                         da_lap_data = driver_telemetry,
                         da_analysis = analyze_telemetry_patterns driver_telemetry incident_lap \<rparr>
                       telemetry_analysis))"

definition analyze_incident_telemetry ::
  "(string \<Rightarrow> int \<Rightarrow> car_stats option) \<Rightarrow> analyzer \<Rightarrow> int option \<Rightarrow> string list
     \<Rightarrow> (string \<times> driver_analysis) list" where
  "analyze_incident_telemetry car st incident_lap drivers =
     (case (incident_lap, lap_data st) of
        (Some l, Some laps) \<Rightarrow>
          if l = 0 \<or> drivers = [] then []
          else foldl (incident_driver_step car st laps l) [] drivers
      | _ \<Rightarrow> [])"

text \<open>\<open>analyze_incidents\<close>. The rows kept by the keyword filter have a message text.\<close>

definition incident_keywords :: "string list" where
  "incident_keywords = [''INCIDENT'', ''CRASH'', ''COLLISION'', ''OFF TRACK'', ''SPIN'', ''CONTACT'']"

definition message_text :: "rc_message \<Rightarrow> string" where
  "message_text m = (case rc_Message m of None \<Rightarrow> [] | Some s \<Rightarrow> s)"

definition make_incident ::
  "(string \<Rightarrow> int \<Rightarrow> car_stats option) \<Rightarrow> analyzer \<Rightarrow> rc_message \<Rightarrow> incident" where
  "make_incident car st m =
     (let drivers = (if contains ''CAR'' (message_text m)
                     then re_findall ''CAR '' is_digit (message_text m) else []);
          incident_lap = rc_Lap m
      in \<lparr> inc_lap = incident_lap,
           inc_time = rc_Time m,
           inc_message = message_text m,
           inc_category = rc_Category m,
           inc_drivers = drivers,
           inc_steward_action = get_steward_action (message_text m),
           inc_telemetry_analysis = analyze_incident_telemetry car st incident_lap drivers \<rparr>)"

definition analyze_incidents ::
  "(string \<Rightarrow> int \<Rightarrow> car_stats option) \<Rightarrow> analyzer \<Rightarrow> incident list" where
  "analyze_incidents car st =
     (case (race_control st, lap_data st) of
        (Some msgs, Some laps) \<Rightarrow>
          map (make_incident car st)
            (filter (\<lambda>m. contains_any_ci incident_keywords (rc_Message m)) msgs)
      | _ \<Rightarrow> [])"

section \<open>Position-change scanner\<close>

record tire_changes =
  compound_change :: "(string option \<times> string option) option"
  tyre_life_change :: "int option"

text \<open>\<open>lap_time_change\<close> is \<open>None\<close> while it still holds the initial \<open>'N/A'\<close>; the dicts
  \<open>speed_changes\<close> and \<open>sector_changes\<close> are keyed by the field name.\<close>

record telemetry_comparison =
  lap_time_change :: "pyfloat option"
  speed_changes :: "(string \<times> rat) list"
  sector_changes :: "(string \<times> pyfloat) list"
  tire_changes :: tire_changes
  cmp_anomalies :: "anomaly list"

record position_change =
  pc_driver :: string
  pc_lap :: int
  pc_from_position :: int
  pc_to_position :: int
  pc_change :: int
  pc_lap_time :: string
  pc_prev_lap_time :: string
  pc_compound :: "string option"
  pc_tyre_life :: "int option"
  pc_telemetry_comparison :: telemetry_comparison

text \<open>Float subtraction and the test \<open>abs(x) > t\<close>; NaN propagates through the
  subtraction and fails every comparison.\<close>

fun fsub :: "pyfloat \<Rightarrow> pyfloat \<Rightarrow> pyfloat" where
  "fsub (Num a) (Num b) = Num (a - b)"
| "fsub _ _ = NaN"

fun exceeds :: "pyfloat \<Rightarrow> rat \<Rightarrow> rat option" where
  "exceeds (Num a) t = (if \<bar>a\<bar> > t then Some a else None)"
| "exceeds NaN t = None"

text \<open>The \<open>try\<close> block of the lap-time comparison: nothing is written before both cells
  have parsed, and the bare \<open>except\<close> swallows a failure of either.\<close>

definition lap_time_comparison ::
  "to_seconds \<Rightarrow> lap_record \<Rightarrow> lap_record \<Rightarrow> pyfloat option \<times> anomaly list" where
  "lap_time_comparison td prev_lap curr_lap =
     (case td (LapTime prev_lap) of
        None \<Rightarrow> (None, [])
      | Some prev_time \<Rightarrow>
          (case td (LapTime curr_lap) of
             None \<Rightarrow> (None, [])
           | Some curr_time \<Rightarrow>
               (let time_diff = fsub curr_time prev_time
                in (Some time_diff,
                    case exceeds time_diff 2 of
                      None \<Rightarrow> [] | Some x \<Rightarrow> [LapTimeChange x]))))"

definition speed_fields :: "(string \<times> (lap_record \<Rightarrow> rat option)) list" where
  "speed_fields =
     [(''SpeedI1'', SpeedI1), (''SpeedI2'', SpeedI2), (''SpeedFL'', SpeedFL), (''SpeedST'', SpeedST)]"

definition sector_fields :: "(string \<times> (lap_record \<Rightarrow> string option)) list" where
  "sector_fields =
     [(''Sector1Time'', Sector1Time), (''Sector2Time'', Sector2Time), (''Sector3Time'', Sector3Time)]"

text \<open>One round of the speed loop and one of the sector loop: the entry added to the
  dict (if any) and the anomalies appended.\<close>

definition speed_comparison ::
  "lap_record \<Rightarrow> lap_record \<Rightarrow> string \<times> (lap_record \<Rightarrow> rat option)
     \<Rightarrow> (string \<times> rat) list \<times> anomaly list" where
  "speed_comparison prev_lap curr_lap fld =
     (case (snd fld prev_lap, snd fld curr_lap) of
        (Some p, Some c) \<Rightarrow>
          (let speed_diff = c - p
           in ([(fst fld, speed_diff)],
               if \<bar>speed_diff\<bar> > 15 then [FieldSpeedChange (fst fld) speed_diff] else []))
      | _ \<Rightarrow> ([], []))"

definition sector_comparison ::
  "to_seconds \<Rightarrow> lap_record \<Rightarrow> lap_record \<Rightarrow> string \<times> (lap_record \<Rightarrow> string option)
     \<Rightarrow> (string \<times> pyfloat) list \<times> anomaly list" where
  "sector_comparison td prev_lap curr_lap fld =
     (if snd fld prev_lap \<noteq> None \<and> snd fld curr_lap \<noteq> None
      then (case td (snd fld prev_lap) of
              None \<Rightarrow> ([], [])
            | Some prev_sector \<Rightarrow>
                (case td (snd fld curr_lap) of
                   None \<Rightarrow> ([], [])
                 | Some curr_sector \<Rightarrow>
                     (let sector_diff = fsub curr_sector prev_sector
                      in ([(fst fld, sector_diff)],
                          case exceeds sector_diff (1 / 2) of
                            None \<Rightarrow> [] | Some x \<Rightarrow> [FieldSectorChange (fst fld) x]))))
      else ([], []))"

text \<open>\<open>_compare_lap_telemetry\<close>. A missing compound is NaN, and \<open>NaN != NaN\<close> holds in
  Python, so two missing compounds count as a compound change.\<close>

definition compare_lap_telemetry ::
  "to_seconds \<Rightarrow> lap_record \<Rightarrow> lap_record \<Rightarrow> telemetry_comparison" where
  "compare_lap_telemetry td prev_lap curr_lap =
     (let lt = lap_time_comparison td prev_lap curr_lap;
          sp = map (speed_comparison prev_lap curr_lap) speed_fields;
          se = map (sector_comparison td prev_lap curr_lap) sector_fields
      in \<lparr> lap_time_change = fst lt,
           speed_changes = concat (map fst sp),
           sector_changes = concat (map fst se),
           tire_changes =
             \<lparr> compound_change =
                 (if Compound prev_lap = None \<or> Compound curr_lap = None
                     \<or> Compound prev_lap \<noteq> Compound curr_lap
                  then Some (Compound prev_lap, Compound curr_lap) else None),
               tyre_life_change =
                 (case (TyreLife prev_lap, TyreLife curr_lap) of
                    (Some p, Some c) \<Rightarrow> Some (c - p) | _ \<Rightarrow> None) \<rparr>,
           cmp_anomalies = snd lt @ concat (map snd sp) @ concat (map snd se) \<rparr>)"

text \<open>The rows of one driver in lap order:
  \<open>lap_data[lap_data['Driver'] == driver].sort_values('LapNumber')\<close>.\<close>

definition driver_laps :: "lap_record list \<Rightarrow> string \<Rightarrow> lap_record list" where
  "driver_laps laps driver = sort_key LapNumber (filter (\<lambda>r. Driver r = driver) laps)"

text \<open>The body of the loop over \<open>i\<close> for the pair \<open>(iloc[i-1], iloc[i])\<close>: the record
  appended, if any.\<close>

definition change_of ::
  "to_seconds \<Rightarrow> int \<Rightarrow> string \<Rightarrow> lap_record \<times> lap_record \<Rightarrow> position_change option" where
  "change_of td min_change driver pr =
     (let prev_lap = fst pr; curr_lap = snd pr
      in case (Position prev_lap, Position curr_lap) of
           (Some prev_pos, Some curr_pos) \<Rightarrow>
             if prev_pos \<noteq> curr_pos
             then (let change = prev_pos - curr_pos
                   in if \<bar>change\<bar> \<ge> min_change
                      then Some \<lparr> pc_driver = driver,
                                  pc_lap = LapNumber curr_lap,
                                  pc_from_position = prev_pos,
                                  pc_to_position = curr_pos,
                                  pc_change = change,
                                  pc_lap_time = str_cell (LapTime curr_lap),
                                  pc_prev_lap_time = str_cell (LapTime prev_lap),
                                  pc_compound = Compound curr_lap,
                                  pc_tyre_life = TyreLife curr_lap,
                                  pc_telemetry_comparison =
                                    compare_lap_telemetry td prev_lap curr_lap \<rparr>
                      else None)
             else None
         | _ \<Rightarrow> None)"

text \<open>The list \<open>position_changes\<close> as the two loops fill it, before the sort: drivers in
  order of first appearance, each driver's consecutive rows in lap order.\<close>

definition driver_changes ::
  "to_seconds \<Rightarrow> int \<Rightarrow> lap_record list \<Rightarrow> string \<Rightarrow> position_change list" where
  "driver_changes td min_change laps driver =
     (let dl = driver_laps laps driver
      in List.map_filter (change_of td min_change driver) (zip dl (tl dl)))"

definition encountered_changes ::
  "to_seconds \<Rightarrow> int \<Rightarrow> lap_record list \<Rightarrow> position_change list" where
  "encountered_changes td min_change laps =
     concat (map (driver_changes td min_change laps) (unique (map Driver laps)))"

text \<open>\<open>analyze_position_changes\<close>. \<open>list.sort(key=..., reverse=True)\<close> is a stable sort
  into descending key order (elements with equal keys keep their order), which is the
  stable ascending sort by the negated key.\<close>

definition analyze_position_changes ::
  "to_seconds \<Rightarrow> analyzer \<Rightarrow> int \<Rightarrow> position_change list" where
  "analyze_position_changes td st min_change =
     (case lap_data st of
        None \<Rightarrow> []
      | Some laps \<Rightarrow>
          sort_key (\<lambda>x. - \<bar>pc_change x\<bar>) (encountered_changes td min_change laps))"

section \<open>Pit-strategy scanner\<close>

datatype py_error = IndexError | ValueError

record pit_entry =
  pit_lap :: int
  pit_compound :: "string option"
  pit_tyre_life :: "int option"
  position_before :: "int option"
  position_after :: "int option"
  pit_position_change :: "int option"

text \<open>\<open>series.iloc[0]\<close>: IndexError on an empty selection.\<close>

definition iloc0 :: "'a list \<Rightarrow> py_error + 'a" where
  "iloc0 xs = (case xs of [] \<Rightarrow> Inl IndexError | x # _ \<Rightarrow> Inr x)"

text \<open>
  \<open>pos_before\<close> and \<open>pos_after\<close> hold Python's \<open>None\<close> (here \<open>None\<close>) until a position
  cell is read into them; the cell is a float, NaN when missing (\<open>Some None\<close>).
  \<open>int(pos) if pos else None\<close>: \<open>None\<close> and \<open>0.0\<close> are falsy, NaN is truthy and \<open>int(NaN)\<close>
  raises ValueError.
\<close>

definition int_if_truthy :: "int option option \<Rightarrow> py_error + int option" where
  "int_if_truthy pos =
     (case pos of
        None \<Rightarrow> Inr None
      | Some None \<Rightarrow> Inl ValueError
      | Some (Some p) \<Rightarrow> if p = 0 then Inr None else Inr (Some p))"

definition adjacent_position :: "lap_record list \<Rightarrow> int \<Rightarrow> py_error + int option" where
  "adjacent_position dl n = iloc0 (map Position (filter (\<lambda>r. LapNumber r = n) dl))"

text \<open>The body of the loop over the pit-in rows of one driver. The dict literal is
  evaluated field by field, so the first failing conversion is the one raised.\<close>

definition pit_entry_of :: "lap_record list \<Rightarrow> lap_record \<Rightarrow> py_error + pit_entry" where
  "pit_entry_of dl pit =
     (let lap_num = LapNumber pit
      in case (if lap_num > 1 then map_sum id Some (adjacent_position dl (lap_num - 1))
               else Inr None) of
           Inl e \<Rightarrow> Inl e
         | Inr pos_before \<Rightarrow>
             (case (if lap_num < py_max (map LapNumber dl)
                    then map_sum id Some (adjacent_position dl (lap_num + 1))
                    else Inr None) of
                Inl e \<Rightarrow> Inl e
              | Inr pos_after \<Rightarrow>
                  (case int_if_truthy pos_before of
                     Inl e \<Rightarrow> Inl e
                   | Inr bef \<Rightarrow>
                       (case int_if_truthy pos_after of
                          Inl e \<Rightarrow> Inl e
                        | Inr aft \<Rightarrow>
                            Inr \<lparr> pit_lap = lap_num,
                                  pit_compound = Compound pit,
                                  pit_tyre_life = TyreLife pit,
                                  position_before = bef,
                                  position_after = aft,
                                  pit_position_change =
                                    (case (bef, aft) of
                                       (Some b, Some a) \<Rightarrow> Some (a - b)
                                     | _ \<Rightarrow> None) \<rparr>))))"

text \<open>A loop whose body may raise: the first error ends it.\<close>

fun map_err :: "('a \<Rightarrow> 'e + 'b) \<Rightarrow> 'a list \<Rightarrow> 'e + 'b list" where
  "map_err f [] = Inr []"
| "map_err f (x # xs) =
     (case f x of
        Inl e \<Rightarrow> Inl e
      | Inr y \<Rightarrow> (case map_err f xs of Inl e \<Rightarrow> Inl e | Inr ys \<Rightarrow> Inr (y # ys)))"

definition driver_strategy ::
  "lap_record list \<Rightarrow> string \<Rightarrow> py_error + (string \<times> pit_entry list) list" where
  "driver_strategy laps driver =
     (let dl = driver_laps laps driver;
          pit_stops = filter (\<lambda>r. PitInTime r \<noteq> None) dl
      in if pit_stops = [] then Inr []
         else map_sum id (\<lambda>es. [(driver, es)]) (map_err (pit_entry_of dl) pit_stops))"

text \<open>\<open>analyze_pit_stop_strategies\<close>: the dict of strategies keyed by driver (each
  driver is visited once), or the exception that ends the scan.\<close>

definition analyze_pit_stop_strategies ::
  "analyzer \<Rightarrow> py_error + (string \<times> pit_entry list) list" where
  "analyze_pit_stop_strategies st =
     (case lap_data st of
        None \<Rightarrow> Inr []
      | Some laps \<Rightarrow>
          map_sum id concat (map_err (driver_strategy laps) (unique (map Driver laps))))"

section \<open>Track-limits scanner and yellow flags\<close>

record violation_speed =
  v_max_speed :: rat
  v_min_speed :: rat
  violation_lap_speed :: "rat option"

record violation_analysis =
  va_speed :: "violation_speed option"
  va_sector :: "(string \<times> string \<times> string) option"
  va_anomalies :: "anomaly list"

record violation_telemetry =
  vt_lap_data :: "(int \<times> telemetry_data) list"
  vt_analysis :: violation_analysis

record violation =
  v_lap :: "int option"
  v_time :: string
  v_driver_number :: "string option"
  v_driver_abbreviation :: "string option"
  v_deleted_time :: "string option"
  v_turn :: "string option"
  v_message :: string
  v_telemetry_analysis :: "violation_telemetry option"

text \<open>The loop of \<open>_analyze_violation_telemetry\<close> over \<open>analysis_laps\<close>; its per-lap dict
  has no track status and no channel statistics.\<close>

fun violation_window :: "lap_record list \<Rightarrow> string \<Rightarrow> int list \<Rightarrow> (int \<times> telemetry_data) list" where
  "violation_window laps d [] = []"
| "violation_window laps d (lap_num # rest) =
     (if lap_num \<le> 0 then violation_window laps d rest
      else case find_lap laps d lap_num of
             None \<Rightarrow> violation_window laps d rest
           | Some lap_info \<Rightarrow>
               (lap_num, telemetry_of_lap lap_info lap_num) # violation_window laps d rest)"

definition violation_patterns :: "(int \<times> telemetry_data) list \<Rightarrow> int \<Rightarrow> violation_analysis" where
  "violation_patterns td violation_lap =
     (let speeds = speeds_of td;
          speed_values = map snd speeds
      in \<lparr> va_speed =
             (if length speeds \<ge> 2
              then Some \<lparr> v_max_speed = py_max speed_values,
                          v_min_speed = py_min speed_values,
                          violation_lap_speed = map_of speeds violation_lap \<rparr>
              else None),
           va_sector =
             map_option (\<lambda>d. (sector1_time d, sector2_time d, sector3_time d))
               (map_of td violation_lap),
           va_anomalies =
             (if length speeds \<ge> 2
              then (case (map_of speeds violation_lap, map_of speeds (violation_lap - 1)) of
                      (Some cur, Some prev) \<Rightarrow>
                        (let speed_diff = cur - prev
                         in if \<bar>speed_diff\<bar> > 10 then [SpeedChange speed_diff] else [])
                    | _ \<Rightarrow> [])
              else []) \<rparr>)"

text \<open>\<open>_analyze_violation_telemetry\<close>; the empty dict returned without lap data is \<open>None\<close>.\<close>

definition analyze_violation_telemetry ::
  "analyzer \<Rightarrow> string \<Rightarrow> int \<Rightarrow> violation_telemetry option" where
  "analyze_violation_telemetry st driver_abbrev violation_lap =
     (case lap_data st of
        None \<Rightarrow> None
      | Some laps \<Rightarrow>
          (let analysis_laps = [violation_lap - 1, violation_lap, violation_lap + 1];
               telemetry = violation_window laps driver_abbrev analysis_laps
           in Some \<lparr> vt_lap_data = telemetry,
                     vt_analysis = violation_patterns telemetry violation_lap \<rparr>))"

definition make_violation :: "analyzer \<Rightarrow> rc_message \<Rightarrow> violation" where
  "make_violation st m =
     (let driver_match = re_search ''CAR '' is_digit (message_text m);
          time_match = re_search ''TIME '' is_time_char (message_text m);
          turn_match = re_search ''TURN '' is_digit (message_text m);
          violation_lap = rc_Lap m;
          driver_number = driver_match;
          driver_abbreviation =
            (case driver_number of None \<Rightarrow> None
             | Some n \<Rightarrow> get_driver_from_car_number st n)
      in \<lparr> v_lap = violation_lap,
           v_time = rc_Time m,
           v_driver_number = driver_number,
           v_driver_abbreviation = driver_abbreviation,
           v_deleted_time = time_match,
           v_turn = turn_match,
           v_message = message_text m,
           v_telemetry_analysis =
             (case (violation_lap, driver_number, driver_abbreviation) of
                (Some l, Some n, Some d) \<Rightarrow>
                  if l \<noteq> 0 \<and> d \<noteq> [] then analyze_violation_telemetry st d l else None
              | _ \<Rightarrow> None) \<rparr>)"

text \<open>\<open>analyze_track_limits_violations\<close>\<close>

definition analyze_track_limits_violations :: "analyzer \<Rightarrow> violation list" where
  "analyze_track_limits_violations st =
     (case race_control st of
        None \<Rightarrow> []
      | Some msgs \<Rightarrow>
          map (make_violation st)
            (filter (\<lambda>m. contains_any_ci [''TRACK LIMITS'', ''DELETED''] (rc_Message m)) msgs))"

record yellow_flag =
  yf_lap :: "int option"
  yf_time :: string
  yf_message :: string
  yf_sector :: "int option"

text \<open>\<open>analyze_yellow_flags\<close>\<close>

definition analyze_yellow_flags :: "analyzer \<Rightarrow> yellow_flag list" where
  "analyze_yellow_flags st =
     (case race_control st of
        None \<Rightarrow> []
      | Some msgs \<Rightarrow>
          map (\<lambda>m. \<lparr> yf_lap = rc_Lap m, yf_time = rc_Time m,
                     yf_message = message_text m, yf_sector = rc_Sector m \<rparr>)
            (filter (\<lambda>m. contains_any_ci [''YELLOW''] (rc_Message m)) msgs))"

section \<open>Segment ranker\<close>

datatype segment_detail =
    CollisionDetail "string list" string
  | PositionChangeDetail string int
  | TrackLimitsDetail "string option" "string option"
  | YellowFlagDetail "int option"

record segment =
  priority :: int
  seg_type :: string
  seg_lap :: "int option"
  title :: string
  description :: string
  detail :: segment_detail
  data_points :: "string list"

definition collision_segment :: "incident \<Rightarrow> segment" where
  "collision_segment collision =
     \<lparr> priority = 1,
       seg_type = ''collision'',
       seg_lap = inc_lap collision,
       title = ''Collision - Lap '' @ str_int_opt (inc_lap collision),
       description = inc_message collision,
       detail = CollisionDetail (inc_drivers collision) (inc_steward_action collision),
       data_points = [''positions'', ''lap_times'', ''steward_investigation'', ''yellow_flag''] \<rparr>"

definition position_change_segment :: "position_change \<Rightarrow> segment" where
  "position_change_segment change =
     \<lparr> priority = 2,
       seg_type = ''position_change'',
       seg_lap = Some (pc_lap change),
       title = pc_driver change @ '' - '' @ str_int_signed (pc_change change)
               @ '' positions (Lap '' @ str_int (pc_lap change) @ '')'',
       description = pc_driver change @ '' drops from '' @ str_int (pc_from_position change)
               @ '' to '' @ str_int (pc_to_position change),
       detail = PositionChangeDetail (pc_driver change) (pc_change change),
       data_points = [''position_change'', ''lap_times'', ''tire_compound''] \<rparr>"

definition track_limits_segment :: "violation \<Rightarrow> segment" where
  "track_limits_segment violation =
     \<lparr> priority = 3,
       seg_type = ''track_limits'',
       seg_lap = v_lap violation,
       title = ''Track Limits - Lap '' @ str_int_opt (v_lap violation),
       description = v_message violation,
       detail = TrackLimitsDetail (v_driver_number violation) (v_turn violation),
       data_points = [''steward_decision'', ''track_limits'', ''racing_standards''] \<rparr>"

definition yellow_flag_segment :: "yellow_flag \<Rightarrow> segment" where
  "yellow_flag_segment flag =
     \<lparr> priority = 4,
       seg_type = ''yellow_flag'',
       seg_lap = yf_lap flag,
       title = ''Yellow Flag - Lap '' @ str_int_opt (yf_lap flag),
       description = yf_message flag,
       detail = YellowFlagDetail (yf_sector flag),
       data_points = [''track_status'', ''safety_periods'', ''race_impact''] \<rparr>"

text \<open>\<open>identify_commentary_segments\<close>; \<open>segments.sort(key=priority)\<close> is a stable sort.\<close>

definition identify_commentary_segments ::
  "(string \<Rightarrow> int \<Rightarrow> car_stats option) \<Rightarrow> to_seconds \<Rightarrow> analyzer \<Rightarrow> segment list" where
  "identify_commentary_segments car td st =
     (let incidents = analyze_incidents car st;
          position_changes = analyze_position_changes td st 5;
          track_limits = analyze_track_limits_violations st;
          yellow_flags = analyze_yellow_flags st;
          collisions = filter (\<lambda>inc. contains ''COLLISION'' (inc_message inc)) incidents
      in sort_key priority
           (map collision_segment collisions
            @ map position_change_segment (take 5 position_changes)
            @ map track_limits_segment track_limits
            @ map yellow_flag_segment yellow_flags))"

section \<open>Example inputs\<close>

definition ex_spin_text :: string where
  "ex_spin_text = ''Car 4 spin at turn 2''"

definition ex_collision_text :: string where
  "ex_collision_text = ''CAR 1 (VER) AND CAR 44 (HAM) COLLISION ON LAP 63 - UNDER INVESTIGATION''"

definition ex_messages :: "rc_message list" where
  "ex_messages =
     [\<lparr> rc_Lap = Some 12, rc_Time = ''0:31:07'', rc_Message = Some ex_spin_text,
        rc_Category = ''Other'', rc_Sector = None \<rparr>,
      \<lparr> rc_Lap = None, rc_Time = ''0:32:00'', rc_Message = None,
        rc_Category = ''Other'', rc_Sector = None \<rparr>,
      \<lparr> rc_Lap = Some 13, rc_Time = ''0:33:10'', rc_Message = Some ''GREEN LIGHT - PIT EXIT OPEN'',
        rc_Category = ''Flag'', rc_Sector = None \<rparr>,
      \<lparr> rc_Lap = Some 63, rc_Time = ''1:40:02'',
        rc_Message = Some ex_collision_text,
        rc_Category = ''Other'', rc_Sector = None \<rparr>]"

definition ex_state :: analyzer where
  "ex_state = \<lparr> lap_data = Some [], race_control = Some ex_messages, session_results = None \<rparr>"

definition steward_precedence :: "(string \<times> string) list" where
  "steward_precedence =
     [(''NO FURTHER ACTION'', ''No further action''),
      (''UNDER INVESTIGATION'', ''Under investigation''),
      (''WILL BE INVESTIGATED'', ''Will be investigated after race''),
      (''DELETED'', ''Lap time deleted''),
      (''NOTED'', ''Noted'')]"

definition ex_collision_no_lap :: rc_message where
  "ex_collision_no_lap =
     \<lparr> rc_Lap = None, rc_Time = ''1:40:02'', rc_Message = Some ex_collision_text,
       rc_Category = ''Other'', rc_Sector = None \<rparr>"

definition ex_state_no_lap :: analyzer where
  "ex_state_no_lap =
     \<lparr> lap_data = Some [], race_control = Some [ex_collision_no_lap], session_results = None \<rparr>"

definition ex_lap :: "string \<Rightarrow> int \<Rightarrow> int option \<Rightarrow> rat option \<Rightarrow> lap_record" where
  "ex_lap d n p v =
     \<lparr> Driver = d, LapNumber = n, LapTime = None, Position = p,
       Sector1Time = None, Sector2Time = None, Sector3Time = None,
       SpeedI1 = None, SpeedI2 = None, SpeedFL = v, SpeedST = None,
       Compound = None, TyreLife = None, IsPersonalBest = False, TrackStatus = None,
       PitInTime = None \<rparr>"

definition ex_lower_text :: string where
  "ex_lower_text = ''Car 4 and car 16 collision at turn 1''"

definition ex_yellow_text :: string where
  "ex_yellow_text = ''YELLOW IN TRACK SECTOR 7''"

definition ex_limits_text :: string where
  "ex_limits_text = ''CAR 81 TRACK LIMITS TURN 4 - LAP TIME 1:23.456 DELETED''"

definition ex_msg :: "int option \<Rightarrow> string \<Rightarrow> rc_message" where
  "ex_msg l t = \<lparr> rc_Lap = l, rc_Time = ''0:10:00'', rc_Message = Some t,
                  rc_Category = ''Other'', rc_Sector = None \<rparr>"

definition ex_race_messages :: "rc_message list" where
  "ex_race_messages =
     [ex_msg (Some 2) ex_yellow_text, ex_msg (Some 30) ex_limits_text,
      ex_msg (Some 1) ex_lower_text, ex_msg (Some 63) ex_collision_text]"

definition ex_race :: analyzer where
  "ex_race =
     \<lparr> lap_data = Some [ex_lap ''PER'' 9 (Some 5) None, ex_lap ''PER'' 10 (Some 12) None],
       race_control = Some ex_race_messages,
       session_results = Some [\<lparr> DriverNumber = 1, Abbreviation = ''VER'' \<rparr>] \<rparr>"

definition ex_gain_laps :: "lap_record list" where
  "ex_gain_laps = [ex_lap ''PIA'' 29 (Some 3) (Some 300), ex_lap ''PIA'' 30 (Some 3) (Some 315),
                   ex_lap ''PIA'' 31 (Some 3) (Some 314)]"

definition ex_gain_state :: analyzer where
  "ex_gain_state = \<lparr> lap_data = Some ex_gain_laps, race_control = Some [],
                      session_results = Some [\<lparr> DriverNumber = 81, Abbreviation = ''PIA'' \<rparr>] \<rparr>"

definition ex_gap_laps :: "lap_record list" where
  "ex_gap_laps =
     [ex_lap ''ALB'' 1 (Some 9) None, ex_lap ''ALB'' 2 (Some 9) None, ex_lap ''ALB'' 3 (Some 9) None,
      (ex_lap ''ALB'' 5 (Some 14) None) \<lparr> PitInTime := Some ''0 days 00:09:41.250000'' \<rparr>,
      ex_lap ''ALB'' 6 (Some 13) None]"

definition ex_gap_state :: analyzer where
  "ex_gap_state = \<lparr> lap_data = Some ex_gap_laps, race_control = Some [], session_results = None \<rparr>"

text \<open>The finish-line speed and the position that the lap table holds for a driver and a
  lap number (of the first such row), for stating what the correlators report. Lap
  numbers below 1 are never looked up.\<close>

definition finish_line_speed :: "lap_record list \<Rightarrow> string \<Rightarrow> int \<Rightarrow> rat option" where
  "finish_line_speed laps d n = (if 0 < n then Option.bind (find_lap laps d n) SpeedFL else None)"

definition lap_position :: "lap_record list \<Rightarrow> string \<Rightarrow> int \<Rightarrow> int option" where
  "lap_position laps d n = (if 0 < n then Option.bind (find_lap laps d n) Position else None)"

text \<open>The fields of a position-change record other than the telemetry comparison.\<close>

definition change_core ::
  "position_change \<Rightarrow> string \<times> int \<times> int \<times> int \<times> int \<times> string \<times> string \<times> string option \<times> int option" where
  "change_core pc =
     (pc_driver pc, pc_lap pc, pc_from_position pc, pc_to_position pc, pc_change pc,
      pc_lap_time pc, pc_prev_lap_time pc, pc_compound pc, pc_tyre_life pc)"

text \<open>A duration parser for the examples: it reads whole seconds written \<open>Ns\<close>, yields NaN
  for a missing cell and raises on any other text.\<close>

definition ex_parser :: to_seconds where
  "ex_parser cell =
     (case cell of
        None \<Rightarrow> Some NaN
      | Some s \<Rightarrow>
          if s \<noteq> [] \<and> last s = CHR ''s'' \<and> butlast s \<noteq> [] \<and> list_all is_digit (butlast s)
          then Some (Num (of_int (int_of_digits (butlast s))))
          else None)"

definition ex_bad_prev :: lap_record where
  "ex_bad_prev =
     (ex_lap ''PER'' 9 (Some 5) (Some 310))
        \<lparr> LapTime := Some ''81s'', Sector1Time := Some ''27s'', Sector2Time := Some ''30s'' \<rparr>"

definition ex_bad_curr :: lap_record where
  "ex_bad_curr =
     (ex_lap ''PER'' 10 (Some 12) (Some 290))
        \<lparr> LapTime := Some ''1:2x.5'', Sector1Time := Some ''abc'', Sector2Time := Some ''33s'' \<rparr>"

definition ex_bad_laps :: "lap_record list" where
  "ex_bad_laps = [ex_bad_prev, ex_bad_curr]"

definition ex_bad_state :: analyzer where
  "ex_bad_state = \<lparr> lap_data = Some ex_bad_laps, race_control = Some [], session_results = None \<rparr>"

definition ex_per_laps :: "lap_record list" where
  "ex_per_laps = [ex_lap ''PER'' 9 (Some 5) None, ex_lap ''PER'' 10 (Some 12) None]"

definition ex_per_state :: analyzer where
  "ex_per_state = \<lparr> lap_data = Some ex_per_laps, race_control = Some [], session_results = None \<rparr>"

definition ex_lap1_laps :: "lap_record list" where
  "ex_lap1_laps =
     [ex_lap ''VER'' 1 (Some 1) (Some 280), ex_lap ''HAM'' 1 (Some 2) (Some 281),
      ex_lap ''VER'' 2 (Some 1) (Some 302), ex_lap ''HAM'' 2 (Some 2) (Some 300),
      ex_lap ''HAM'' 3 (Some 2) (Some 305)]"

definition ex_lap1_text :: string where
  "ex_lap1_text = ''TURN 1 INCIDENT INVOLVING CAR 1 (VER) NOTED''"

definition ex_lap1_limits_text :: string where
  "ex_lap1_limits_text = ''CAR 44 (HAM) TIME 1:31.202 DELETED - TRACK LIMITS AT TURN 4 LAP 1''"

definition ex_lap1_state :: analyzer where
  "ex_lap1_state =
     \<lparr> lap_data = Some ex_lap1_laps,
       race_control = Some [ex_msg (Some 1) ex_lap1_text, ex_msg (Some 1) ex_lap1_limits_text],
       session_results = Some [\<lparr> DriverNumber = 1, Abbreviation = ''VER'' \<rparr>,
                               \<lparr> DriverNumber = 44, Abbreviation = ''HAM'' \<rparr>] \<rparr>"

definition ex_spin_laps :: "lap_record list" where
  "ex_spin_laps =
     [ex_lap ''VER'' 10 (Some 3) (Some 304), ex_lap ''VER'' 11 (Some 3) (Some 305),
      ex_lap ''VER'' 12 (Some 6) (Some 270), ex_lap ''VER'' 13 (Some 6) (Some 300)]"

definition ex_spin_incident_text :: string where
  "ex_spin_incident_text = ''INCIDENT INVOLVING CAR 1 (VER) - SPIN AT TURN 4''"

definition ex_spin_state :: analyzer where
  "ex_spin_state =
     \<lparr> lap_data = Some ex_spin_laps,
       race_control = Some [ex_msg (Some 12) ex_spin_incident_text],
       session_results = Some [\<lparr> DriverNumber = 1, Abbreviation = ''VER'' \<rparr>] \<rparr>"

text \<open>A driver with rows for laps 1 and 3 only.\<close>

definition ex_skip_laps :: "lap_record list" where
  "ex_skip_laps = [ex_lap ''SAI'' 1 (Some 5) None, ex_lap ''SAI'' 3 (Some 12) None]"

definition ex_skip_state :: analyzer where
  "ex_skip_state = \<lparr> lap_data = Some ex_skip_laps, race_control = Some [], session_results = None \<rparr>"

text \<open>Two laps of one driver, the later one without a lap time.\<close>

definition ex_missing_laps :: "lap_record list" where
  "ex_missing_laps =
     [(ex_lap ''PER'' 9 (Some 5) None) \<lparr> LapTime := Some ''81s'' \<rparr>,
      ex_lap ''PER'' 10 (Some 12) None]"

definition ex_missing_state :: analyzer where
  "ex_missing_state =
     \<lparr> lap_data = Some ex_missing_laps, race_control = Some [], session_results = None \<rparr>"

section \<open>Substring matching\<close>

lemma starts_with_iff: "starts_with p s \<longleftrightarrow> (\<exists>post. s = p @ post)"
  by (induction p s rule: starts_with.induct) auto

lemma contains_iff: "contains p s \<longleftrightarrow> (\<exists>pre post. s = pre @ p @ post)"
proof (induction s)
  case Nil
  then show ?case by auto
next
  case (Cons c cs)
  show ?case
  proof
    assume "contains p (c # cs)"
    then consider "starts_with p (c # cs)" | "contains p cs" by auto
    then show "\<exists>pre post. c # cs = pre @ p @ post"
    proof cases
      case 1
      then obtain post where "c # cs = p @ post" by (auto simp: starts_with_iff)
      then have "c # cs = [] @ p @ post" by simp
      then show ?thesis by blast
    next
      case 2
      with Cons obtain pre post where "cs = pre @ p @ post" by auto
      then have "c # cs = (c # pre) @ p @ post" by simp
      then show ?thesis by blast
    qed
  next
    assume "\<exists>pre post. c # cs = pre @ p @ post"
    then obtain pre post where e: "c # cs = pre @ p @ post" by auto
    show "contains p (c # cs)"
    proof (cases pre)
      case Nil
      with e have "starts_with p (c # cs)" by (auto simp: starts_with_iff)
      then show ?thesis by simp
    next
      case (Cons a pre')
      with e have "cs = pre' @ p @ post" by simp
      with Cons.IH have "contains p cs" by auto
      then show ?thesis by simp
    qed
  qed
qed

lemma contains_upper_iff:
  "contains k (upper s) \<longleftrightarrow> (\<exists>pre mid post. s = pre @ mid @ post \<and> upper mid = k)"
proof
  assume "contains k (upper s)"
  then obtain pre post where "map upper_char s = pre @ k @ post"
    by (auto simp: contains_iff upper_def)
  then have "\<exists>us vs. s = us @ vs \<and> pre = map upper_char us \<and> k @ post = map upper_char vs"
    by (simp only: map_eq_append_conv)
  then obtain us vs where s: "s = us @ vs" and vs: "k @ post = map upper_char vs"
    by blast
  from vs have "\<exists>ms ps. vs = ms @ ps \<and> k = map upper_char ms \<and> post = map upper_char ps"
    by (simp only: append_eq_map_conv)
  then obtain ms ps where "vs = ms @ ps" and "map upper_char ms = k"
    by auto
  with s have "s = us @ ms @ ps \<and> upper ms = k" by (simp add: upper_def)
  then show "\<exists>pre mid post. s = pre @ mid @ post \<and> upper mid = k" by blast
next
  assume "\<exists>pre mid post. s = pre @ mid @ post \<and> upper mid = k"
  then obtain pre mid post where "s = pre @ mid @ post" and "upper mid = k" by blast
  then have "upper s = upper pre @ k @ upper post" by (auto simp: upper_def)
  then show "contains k (upper s)" unfolding contains_iff by blast
qed

lemma contains_any_ci_iff:
  "contains_any_ci kws cell \<longleftrightarrow>
     (\<exists>s. cell = Some s \<and> (\<exists>k\<in>set kws. \<exists>pre mid post. s = pre @ mid @ post \<and> upper mid = k))"
  by (cases cell) (simp_all add: contains_any_ci_def list_ex_iff contains_upper_iff)

lemma map_eq_Cons_member: "map f xs = y # ys \<Longrightarrow> \<exists>x\<in>set xs. f x = y"
  by auto

lemma inc_message_make: "inc_message (make_incident car st m) = message_text m"
  by (simp add: make_incident_def Let_def)

section \<open>Properties of the incident extractor\<close>

text \<open>
  C8. With the race-control messages and the lap data loaded, the incident extractor
  returns one incident per message whose text contains one of the keywords INCIDENT,
  CRASH, COLLISION, OFF TRACK, SPIN, CONTACT with case ignored, in the order of the
  messages, each carrying the lap, time and text of its message; and the text of every
  incident it returns contains one of the keywords with case ignored. A text contains a
  keyword with case ignored when it splits as \<open>pre @ mid @ post\<close> with \<open>upper mid\<close> the
  keyword.
\<close>

theorem incidents_are_keyword_messages:
  "(race_control st = Some msgs \<and> lap_data st = Some laps \<longrightarrow>
      map (\<lambda>i. (inc_lap i, inc_time i, inc_message i)) (analyze_incidents car st) =
      map (\<lambda>m. (rc_Lap m, rc_Time m, message_text m))
        (filter (\<lambda>m. \<exists>s. rc_Message m = Some s \<and>
                   (\<exists>k\<in>set incident_keywords. \<exists>pre mid post. s = pre @ mid @ post \<and> upper mid = k))
           msgs))
   \<and> (\<forall>i\<in>set (analyze_incidents car st).
        \<exists>k\<in>set incident_keywords. \<exists>pre mid post. inc_message i = pre @ mid @ post \<and> upper mid = k)"
proof (intro conjI impI ballI)
  assume "race_control st = Some msgs \<and> lap_data st = Some laps"
  then show "map (\<lambda>i. (inc_lap i, inc_time i, inc_message i)) (analyze_incidents car st) =
      map (\<lambda>m. (rc_Lap m, rc_Time m, message_text m))
        (filter (\<lambda>m. \<exists>s. rc_Message m = Some s \<and>
                   (\<exists>k\<in>set incident_keywords. \<exists>pre mid post. s = pre @ mid @ post \<and> upper mid = k))
           msgs)"
    by (simp add: analyze_incidents_def contains_any_ci_iff make_incident_def Let_def o_def)
next
  fix i assume "i \<in> set (analyze_incidents car st)"
  then obtain m where m: "contains_any_ci incident_keywords (rc_Message m)"
    and i: "i = make_incident car st m"
    by (auto simp: analyze_incidents_def split: option.splits)
  from m obtain s where "rc_Message m = Some s"
    and "\<exists>k\<in>set incident_keywords. \<exists>pre mid post. s = pre @ mid @ post \<and> upper mid = k"
    unfolding contains_any_ci_iff by blast
  then show "\<exists>k\<in>set incident_keywords. \<exists>pre mid post. inc_message i = pre @ mid @ post \<and> upper mid = k"
    using i by (simp add: inc_message_make message_text_def)
qed

theorem incidents_are_keyword_messages_witness:
  "race_control ex_state = Some ex_messages \<and> lap_data ex_state = Some []
   \<and> map (\<lambda>i. (inc_lap i, inc_time i, inc_message i)) (analyze_incidents (\<lambda>d n. None) ex_state) =
       map (\<lambda>m. (rc_Lap m, rc_Time m, message_text m))
        (filter (\<lambda>m. \<exists>s. rc_Message m = Some s \<and>
                   (\<exists>k\<in>set incident_keywords. \<exists>pre mid post. s = pre @ mid @ post \<and> upper mid = k))
           ex_messages)
   \<and> map inc_message (analyze_incidents (\<lambda>d n. None) ex_state) = [ex_spin_text, ex_collision_text]
   \<and> (\<exists>k\<in>set incident_keywords. \<exists>pre mid post. ex_spin_text = pre @ mid @ post \<and> upper mid = k)"
proof -
  note inst = incidents_are_keyword_messages [of ex_state ex_messages "[]" "\<lambda>d n. None"]
  have st: "race_control ex_state = Some ex_messages \<and> lap_data ex_state = Some []"
    by (simp add: ex_state_def)
  have ev: "map inc_message (analyze_incidents (\<lambda>d n. None) ex_state) = [ex_spin_text, ex_collision_text]"
    by code_simp
  from map_eq_Cons_member [OF ev] obtain i
    where i: "i \<in> set (analyze_incidents (\<lambda>d n. None) ex_state)" and m: "inc_message i = ex_spin_text"
    by blast
  from inst [THEN conjunct2, rule_format, OF i]
  have kw: "\<exists>k\<in>set incident_keywords. \<exists>pre mid post. ex_spin_text = pre @ mid @ post \<and> upper mid = k"
    by (simp only: m)
  from inst [THEN conjunct1, rule_format, OF st] st ev kw show ?thesis
    by (intro conjI) (simp_all only:)
qed

section \<open>Steward action and the collision example\<close>

lemma steward_action_find:
  "get_steward_action s =
     (case find (\<lambda>(k, a). \<exists>pre post. s = pre @ k @ post) steward_precedence of
        None \<Rightarrow> ''Unknown'' | Some (k, a) \<Rightarrow> a)"
  unfolding contains_iff [symmetric]
  by (simp add: get_steward_action_def steward_precedence_def)

lemma ex_collision_drivers: "re_findall ''CAR '' is_digit ex_collision_text = [''1'', ''44'']"
  by code_simp

lemma ex_collision_action: "get_steward_action ex_collision_text = ''Under investigation''"
  by code_simp

lemma ex_collision_car: "contains ''CAR'' ex_collision_text"
  by code_simp

lemma ex_collision_keyword: "contains_any_ci incident_keywords (Some ex_collision_text)"
  by code_simp

text \<open>
  C3 (as amended). The steward action is the label of the first of NO FURTHER ACTION,
  UNDER INVESTIGATION, WILL BE INVESTIGATED, DELETED, NOTED (in this order) that occurs
  in the message text, and Unknown when none occurs. For a loaded race-control message
  whose text is \<open>CAR 1 (VER) AND CAR 44 (HAM) COLLISION ON LAP 63 - UNDER INVESTIGATION\<close>
  the extractor produces an incident with drivers 1 and 44 and steward action
  \<open>Under investigation\<close>, whose lap is the Lap field of the message record (63 when
  that field is 63): the lap is not read from the text.
\<close>

theorem steward_action_and_collision_example:
  "get_steward_action s =
     (case find (\<lambda>(k, a). \<exists>pre post. s = pre @ k @ post) steward_precedence of
        None \<Rightarrow> ''Unknown'' | Some (k, a) \<Rightarrow> a)
   \<and> (race_control st = Some msgs \<and> lap_data st = Some laps \<and> m \<in> set msgs
        \<and> rc_Message m = Some ex_collision_text \<longrightarrow>
      make_incident car st m \<in> set (analyze_incidents car st)
      \<and> inc_message (make_incident car st m) = ex_collision_text
      \<and> inc_lap (make_incident car st m) = rc_Lap m
      \<and> inc_drivers (make_incident car st m) = [''1'', ''44'']
      \<and> inc_steward_action (make_incident car st m) = ''Under investigation'')"
proof (intro conjI impI)
  show "get_steward_action s =
     (case find (\<lambda>(k, a). \<exists>pre post. s = pre @ k @ post) steward_precedence of
        None \<Rightarrow> ''Unknown'' | Some (k, a) \<Rightarrow> a)"
    by (rule steward_action_find)
next
  assume a: "race_control st = Some msgs \<and> lap_data st = Some laps \<and> m \<in> set msgs
        \<and> rc_Message m = Some ex_collision_text"
  then have t: "message_text m = ex_collision_text" by (simp add: message_text_def)
  from a ex_collision_keyword show "make_incident car st m \<in> set (analyze_incidents car st)"
    by (simp add: analyze_incidents_def)
  show "inc_message (make_incident car st m) = ex_collision_text"
    by (simp add: make_incident_def Let_def t)
  show "inc_lap (make_incident car st m) = rc_Lap m"
    by (simp add: make_incident_def Let_def)
  show "inc_drivers (make_incident car st m) = [''1'', ''44'']"
    by (simp add: make_incident_def Let_def t ex_collision_car ex_collision_drivers)
  show "inc_steward_action (make_incident car st m) = ''Under investigation''"
    by (simp add: make_incident_def Let_def t ex_collision_action)
qed

theorem steward_action_and_collision_example_witness:
  "race_control ex_state = Some ex_messages \<and> lap_data ex_state = Some []
   \<and> ex_messages ! 3 \<in> set ex_messages
   \<and> rc_Message (ex_messages ! 3) = Some ex_collision_text
   \<and> rc_Lap (ex_messages ! 3) = Some 63
   \<and> inc_lap (make_incident (\<lambda>d n. None) ex_state (ex_messages ! 3)) = Some 63
   \<and> inc_drivers (make_incident (\<lambda>d n. None) ex_state (ex_messages ! 3)) = [''1'', ''44'']
   \<and> inc_steward_action (make_incident (\<lambda>d n. None) ex_state (ex_messages ! 3)) = ''Under investigation''
   \<and> make_incident (\<lambda>d n. None) ex_state (ex_messages ! 3)
       \<in> set (analyze_incidents (\<lambda>d n. None) ex_state)"
proof -
  have h: "race_control ex_state = Some ex_messages \<and> lap_data ex_state = Some []
     \<and> ex_messages ! 3 \<in> set ex_messages \<and> rc_Message (ex_messages ! 3) = Some ex_collision_text"
    by (simp add: ex_state_def ex_messages_def)
  have l: "rc_Lap (ex_messages ! 3) = Some 63"
    by (simp add: ex_messages_def)
  from steward_action_and_collision_example
         [of "[]" ex_state ex_messages "[]" "ex_messages ! 3" "\<lambda>d n. None",
          THEN conjunct2, rule_format, OF h] h l
  show ?thesis by (simp only:) 
qed

text \<open>
  C3 as stated fails: the same text in a record whose Lap field is missing gives an
  incident with no lap, not lap 63.
\<close>

theorem collision_example_lap_counterexample:
  "map inc_message (analyze_incidents (\<lambda>d n. None) ex_state_no_lap) = [ex_collision_text]
   \<and> map inc_lap (analyze_incidents (\<lambda>d n. None) ex_state_no_lap) = [None]"
  by code_simp

section \<open>Properties of the segment ranker\<close>

lemma sorted_map_const: "sorted (map (\<lambda>x. c) xs)"
  by (induction xs) auto

lemma segment_priorities:
  "priority \<circ> collision_segment = (\<lambda>x. 1)"
  "priority \<circ> position_change_segment = (\<lambda>x. 2)"
  "priority \<circ> track_limits_segment = (\<lambda>x. 3)"
  "priority \<circ> yellow_flag_segment = (\<lambda>x. 4)"
  by (simp_all add: fun_eq_iff collision_segment_def position_change_segment_def
        track_limits_segment_def yellow_flag_segment_def)

lemma segments_concat:
  "identify_commentary_segments car td st =
     map collision_segment
       (filter (\<lambda>inc. contains ''COLLISION'' (inc_message inc)) (analyze_incidents car st))
     @ map position_change_segment (take 5 (analyze_position_changes td st 5))
     @ map track_limits_segment (analyze_track_limits_violations st)
     @ map yellow_flag_segment (analyze_yellow_flags st)"
proof -
  have "sorted (map priority
     (map collision_segment
       (filter (\<lambda>inc. contains ''COLLISION'' (inc_message inc)) (analyze_incidents car st))
     @ map position_change_segment (take 5 (analyze_position_changes td st 5))
     @ map track_limits_segment (analyze_track_limits_violations st)
     @ map yellow_flag_segment (analyze_yellow_flags st)))"
    by (auto simp: sorted_append segment_priorities sorted_map_const)
  from sort_key_id_if_sorted [OF this] show ?thesis
    by (simp add: identify_commentary_segments_def Let_def)
qed

lemma sorted_take_drop:
  assumes "sorted (map f xs)" and "a \<in> set (take n xs)" and "b \<in> set (drop n xs)"
  shows "f a \<le> f b"
proof -
  have "sorted (map f (take n xs) @ map f (drop n xs))"
    using assms(1) by (metis append_take_drop_id map_append)
  with assms(2,3) show ?thesis by (auto simp: sorted_append)
qed

lemma position_changes_sorted:
  "sorted (map (\<lambda>x. - \<bar>pc_change x\<bar>) (analyze_position_changes td st m))"
  by (simp add: analyze_position_changes_def split: option.splits)

lemma segments_priority_sorted:
  "sorted (map priority (identify_commentary_segments car td st))"
  by (simp add: identify_commentary_segments_def Let_def)

lemma segment_type_priority:
  assumes "s \<in> set (identify_commentary_segments car td st)"
  shows "(seg_type s = ''collision'' \<longrightarrow> priority s = 1)
       \<and> (seg_type s = ''yellow_flag'' \<longrightarrow> priority s = 4)"
  using assms unfolding segments_concat
  by (auto simp: collision_segment_def position_change_segment_def
        track_limits_segment_def yellow_flag_segment_def)

text \<open>
  C2. The ranked list is the collision segments (priority 1: the incidents whose text
  contains COLLISION), then the segments of the first five position changes of the scan
  with \<open>min_change = 5\<close> (priority 2; the scan is sorted by descending absolute change,
  so no change left out has a larger absolute change than one taken), then one segment
  per track-limits violation (priority 3), then one per yellow-flag message (priority
  4), each group in detection order. The list is sorted ascending by priority, and
  every collision segment comes before every yellow-flag segment.
\<close>

theorem segment_ranking:
  "identify_commentary_segments car td st =
     map collision_segment
       (filter (\<lambda>inc. contains ''COLLISION'' (inc_message inc)) (analyze_incidents car st))
     @ map position_change_segment (take 5 (analyze_position_changes td st 5))
     @ map track_limits_segment (analyze_track_limits_violations st)
     @ map yellow_flag_segment (analyze_yellow_flags st)
   \<and> priority (collision_segment inc) = 1 \<and> priority (position_change_segment pc) = 2
   \<and> priority (track_limits_segment v) = 3 \<and> priority (yellow_flag_segment yf) = 4
   \<and> (\<forall>a\<in>set (take 5 (analyze_position_changes td st 5)).
        \<forall>b\<in>set (drop 5 (analyze_position_changes td st 5)). \<bar>pc_change b\<bar> \<le> \<bar>pc_change a\<bar>)
   \<and> sorted (map priority (identify_commentary_segments car td st))
   \<and> (\<forall>i j. i < length (identify_commentary_segments car td st)
          \<and> j < length (identify_commentary_segments car td st)
          \<and> seg_type (identify_commentary_segments car td st ! i) = ''collision''
          \<and> seg_type (identify_commentary_segments car td st ! j) = ''yellow_flag''
        \<longrightarrow> i < j)"
proof (intro conjI allI impI ballI)
  show "identify_commentary_segments car td st =
     map collision_segment
       (filter (\<lambda>inc. contains ''COLLISION'' (inc_message inc)) (analyze_incidents car st))
     @ map position_change_segment (take 5 (analyze_position_changes td st 5))
     @ map track_limits_segment (analyze_track_limits_violations st)
     @ map yellow_flag_segment (analyze_yellow_flags st)"
    by (rule segments_concat)
  show "priority (collision_segment inc) = 1" by (simp add: collision_segment_def)
  show "priority (position_change_segment pc) = 2" by (simp add: position_change_segment_def)
  show "priority (track_limits_segment v) = 3" by (simp add: track_limits_segment_def)
  show "priority (yellow_flag_segment yf) = 4" by (simp add: yellow_flag_segment_def)
  show "sorted (map priority (identify_commentary_segments car td st))"
    by (rule segments_priority_sorted)
next
  fix a b
  assume "a \<in> set (take 5 (analyze_position_changes td st 5))"
    and "b \<in> set (drop 5 (analyze_position_changes td st 5))"
  from sorted_take_drop [OF position_changes_sorted this]
  show "\<bar>pc_change b\<bar> \<le> \<bar>pc_change a\<bar>" by simp
next
  fix i j
  let ?S = "identify_commentary_segments car td st"
  assume h: "i < length ?S \<and> j < length ?S \<and> seg_type (?S ! i) = ''collision''
      \<and> seg_type (?S ! j) = ''yellow_flag''"
  then have "?S ! i \<in> set ?S" and "?S ! j \<in> set ?S" by simp_all
  with h have pi: "priority (?S ! i) = 1" and pj: "priority (?S ! j) = 4"
    using segment_type_priority by blast+
  show "i < j"
  proof (rule ccontr)
    assume "\<not> i < j"
    then have "j \<le> i" by simp
    with h segments_priority_sorted [of car td st]
    have "map priority ?S ! j \<le> map priority ?S ! i"
      by (simp add: sorted_iff_nth_mono)
    with h pi pj show False by simp
  qed
qed

theorem segment_ranking_witness:
  "map seg_type (identify_commentary_segments (\<lambda>d n. None) (\<lambda>c. None) ex_race)
     = [''collision'', ''position_change'', ''track_limits'', ''yellow_flag'']
   \<and> map priority (identify_commentary_segments (\<lambda>d n. None) (\<lambda>c. None) ex_race) = [1, 2, 3, 4]
   \<and> map description (identify_commentary_segments (\<lambda>d n. None) (\<lambda>c. None) ex_race)
     = [ex_collision_text, ''PER drops from 5 to 12'', ex_limits_text, ex_yellow_text]
   \<and> (0::nat) < 3"
proof -
  let ?S = "identify_commentary_segments (\<lambda>d n. None) (\<lambda>c. None) ex_race"
  have t: "map seg_type ?S = [''collision'', ''position_change'', ''track_limits'', ''yellow_flag'']"
    by code_simp
  have p: "map priority ?S = [1, 2, 3, 4]"
    by code_simp
  have d: "map description ?S
     = [ex_collision_text, ''PER drops from 5 to 12'', ex_limits_text, ex_yellow_text]"
    by code_simp
  from t have "length (map seg_type ?S) = 4" by simp
  then have len: "length ?S = 4" by simp
  from len have "seg_type (?S ! 0) = map seg_type ?S ! 0" and "seg_type (?S ! 3) = map seg_type ?S ! 3"
    by simp_all
  with t len have h: "0 < length ?S \<and> 3 < length ?S \<and> seg_type (?S ! 0) = ''collision''
      \<and> seg_type (?S ! 3) = ''yellow_flag''"
    by simp
  note r = segment_ranking [of "\<lambda>d n. None" "\<lambda>c. None" ex_race,
      THEN conjunct2, THEN conjunct2, THEN conjunct2, THEN conjunct2, THEN conjunct2,
      THEN conjunct2, THEN conjunct2, rule_format, OF h]
  have "(0::nat) < 3" by (rule r)
  with t p d show ?thesis by (intro conjI)
qed

lemma priority_one_is_collision:
  assumes "s \<in> set (identify_commentary_segments car td st)" and "priority s = 1"
  shows "\<exists>inc\<in>set (analyze_incidents car st).
           contains ''COLLISION'' (inc_message inc) \<and> s = collision_segment inc"
  using assms unfolding segments_concat
  by (auto simp: position_change_segment_def track_limits_segment_def yellow_flag_segment_def)

text \<open>
  C10. The collision filter of the segment ranker is case-sensitive: the description of
  every priority-1 segment contains the upper-case word COLLISION. So for a loaded
  message whose text matches an incident keyword with case ignored but does not contain
  upper-case COLLISION, the extractor produces an incident (with that text and the
  message's lap), and no priority-1 segment of the ranked list has that text.
\<close>

theorem collision_filter_case_sensitive:
  "(\<forall>s\<in>set (identify_commentary_segments car td st).
      priority s = 1 \<longrightarrow> (\<exists>pre post. description s = pre @ ''COLLISION'' @ post))
   \<and> (race_control st = Some msgs \<and> lap_data st = Some laps \<and> m \<in> set msgs
        \<and> rc_Message m = Some text
        \<and> (\<exists>k\<in>set incident_keywords. \<exists>pre mid post. text = pre @ mid @ post \<and> upper mid = k)
        \<and> (\<nexists>pre post. text = pre @ ''COLLISION'' @ post)
      \<longrightarrow> (\<exists>i\<in>set (analyze_incidents car st). inc_message i = text \<and> inc_lap i = rc_Lap m)
        \<and> (\<forall>s\<in>set (identify_commentary_segments car td st).
              priority s = 1 \<longrightarrow> description s \<noteq> text))"
proof (intro conjI impI ballI)
  fix s
  assume "s \<in> set (identify_commentary_segments car td st)" and "priority s = 1"
  from priority_one_is_collision [OF this] obtain inc
    where "contains ''COLLISION'' (inc_message inc)" and "s = collision_segment inc" by blast
  then show "\<exists>pre post. description s = pre @ ''COLLISION'' @ post"
    by (simp add: collision_segment_def contains_iff)
next
  assume h: "race_control st = Some msgs \<and> lap_data st = Some laps \<and> m \<in> set msgs
        \<and> rc_Message m = Some text
        \<and> (\<exists>k\<in>set incident_keywords. \<exists>pre mid post. text = pre @ mid @ post \<and> upper mid = k)
        \<and> (\<nexists>pre post. text = pre @ ''COLLISION'' @ post)"
  then have kw: "contains_any_ci incident_keywords (rc_Message m)"
    unfolding contains_any_ci_iff by simp
  with h have "make_incident car st m \<in> set (analyze_incidents car st)"
    by (simp add: analyze_incidents_def)
  moreover from h have "inc_message (make_incident car st m) = text"
    by (simp add: inc_message_make message_text_def)
  moreover have "inc_lap (make_incident car st m) = rc_Lap m"
    by (simp add: make_incident_def Let_def)
  ultimately show "\<exists>i\<in>set (analyze_incidents car st). inc_message i = text \<and> inc_lap i = rc_Lap m"
    by blast
next
  fix s
  assume h: "race_control st = Some msgs \<and> lap_data st = Some laps \<and> m \<in> set msgs
        \<and> rc_Message m = Some text
        \<and> (\<exists>k\<in>set incident_keywords. \<exists>pre mid post. text = pre @ mid @ post \<and> upper mid = k)
        \<and> (\<nexists>pre post. text = pre @ ''COLLISION'' @ post)"
    and "s \<in> set (identify_commentary_segments car td st)" and "priority s = 1"
  from priority_one_is_collision [OF this(2,3)] obtain inc
    where c: "contains ''COLLISION'' (inc_message inc)" and s: "s = collision_segment inc" by blast
  from s have "description s = inc_message inc" by (simp add: collision_segment_def)
  with c have "contains ''COLLISION'' (description s)" by simp
  moreover from h have "\<not> contains ''COLLISION'' text" unfolding contains_iff by blast
  ultimately show "description s \<noteq> text" by auto
qed

lemma ex_lower_keyword: "contains_any_ci incident_keywords (Some ex_lower_text)"
  by code_simp

lemma ex_lower_no_upper: "\<not> contains ''COLLISION'' ex_lower_text"
  by code_simp

theorem collision_filter_case_sensitive_witness:
  "race_control ex_race = Some ex_race_messages
   \<and> lap_data ex_race = Some [ex_lap ''PER'' 9 (Some 5) None, ex_lap ''PER'' 10 (Some 12) None]
   \<and> ex_msg (Some 1) ex_lower_text \<in> set ex_race_messages
   \<and> (\<exists>k\<in>set incident_keywords. \<exists>pre mid post. ex_lower_text = pre @ mid @ post \<and> upper mid = k)
   \<and> (\<nexists>pre post. ex_lower_text = pre @ ''COLLISION'' @ post)
   \<and> (\<exists>i\<in>set (analyze_incidents (\<lambda>d n. None) ex_race).
         inc_message i = ex_lower_text \<and> inc_lap i = Some 1)
   \<and> map description
        (filter (\<lambda>s. priority s = 1) (identify_commentary_segments (\<lambda>d n. None) (\<lambda>c. None) ex_race))
      = [ex_collision_text]"
proof -
  have a: "race_control ex_race = Some ex_race_messages"
    and b: "lap_data ex_race = Some [ex_lap ''PER'' 9 (Some 5) None, ex_lap ''PER'' 10 (Some 12) None]"
    by (simp_all add: ex_race_def)
  have c: "ex_msg (Some 1) ex_lower_text \<in> set ex_race_messages"
    by (simp add: ex_race_messages_def)
  have d: "rc_Message (ex_msg (Some 1) ex_lower_text) = Some ex_lower_text"
    and l: "rc_Lap (ex_msg (Some 1) ex_lower_text) = Some 1"
    by (simp_all add: ex_msg_def)
  have e: "\<exists>k\<in>set incident_keywords. \<exists>pre mid post. ex_lower_text = pre @ mid @ post \<and> upper mid = k"
    using ex_lower_keyword unfolding contains_any_ci_iff by simp
  have f: "\<nexists>pre post. ex_lower_text = pre @ ''COLLISION'' @ post"
    using ex_lower_no_upper unfolding contains_iff .
  have g: "map description
        (filter (\<lambda>s. priority s = 1) (identify_commentary_segments (\<lambda>d n. None) (\<lambda>c. None) ex_race))
      = [ex_collision_text]"
    by code_simp
  from a b c d e f
  have h: "race_control ex_race = Some ex_race_messages
        \<and> lap_data ex_race = Some [ex_lap ''PER'' 9 (Some 5) None, ex_lap ''PER'' 10 (Some 12) None]
        \<and> ex_msg (Some 1) ex_lower_text \<in> set ex_race_messages
        \<and> rc_Message (ex_msg (Some 1) ex_lower_text) = Some ex_lower_text
        \<and> (\<exists>k\<in>set incident_keywords. \<exists>pre mid post. ex_lower_text = pre @ mid @ post \<and> upper mid = k)
        \<and> (\<nexists>pre post. ex_lower_text = pre @ ''COLLISION'' @ post)"
    by (intro conjI)
  note r = collision_filter_case_sensitive
      [of "\<lambda>d n. None" "\<lambda>c. None" ex_race ex_race_messages
          "[ex_lap ''PER'' 9 (Some 5) None, ex_lap ''PER'' 10 (Some 12) None]"
          "ex_msg (Some 1) ex_lower_text" ex_lower_text,
       THEN conjunct2, rule_format, OF h, THEN conjunct1]
  have i: "\<exists>i\<in>set (analyze_incidents (\<lambda>d n. None) ex_race).
         inc_message i = ex_lower_text \<and> inc_lap i = Some 1"
    using r unfolding l .
  from a b c e f i g show ?thesis by (intro conjI)
qed

section \<open>Properties of the telemetry correlation\<close>

lemma map_of_map_filter_Pair:
  assumes "distinct (map fst td)"
  shows "map_of (List.map_filter (\<lambda>(k, d). map_option (Pair k) (f d)) td) n
           = Option.bind (map_of td n) f"
  using assms
proof (induction td)
  case Nil
  then show ?case by (simp add: List.map_filter_simps)
next
  case (Cons a td)
  obtain k d where a: "a = (k, d)" by (cases a)
  from Cons have IH: "map_of (List.map_filter (\<lambda>(k, d). map_option (Pair k) (f d)) td) n
           = Option.bind (map_of td n) f" by simp
  show ?case
  proof (cases "f d")
    case None
    show ?thesis
    proof (cases "n = k")
      case True
      with Cons.prems a have "map_of td n = None"
        by (auto simp: map_of_eq_None_iff)
      with None a True IH show ?thesis by (simp add: List.map_filter_simps)
    next
      case False
      with None a IH show ?thesis by (simp add: List.map_filter_simps)
    qed
  next
    case (Some v)
    with a IH show ?thesis by (simp add: List.map_filter_simps)
  qed
qed

lemma speeds_lookup:
  "distinct (map fst td) \<Longrightarrow> map_of (speeds_of td) n = Option.bind (map_of td n) speed_fl"
  unfolding speeds_of_def by (rule map_of_map_filter_Pair)

lemma positions_lookup:
  "distinct (map fst td) \<Longrightarrow> map_of (positions_of td) n = Option.bind (map_of td n) position"
  unfolding positions_of_def by (rule map_of_map_filter_Pair)

lemma two_keys_length:
  assumes "map_of xs a = Some u" and "map_of xs b = Some v" and "a \<noteq> b"
  shows "2 \<le> length xs"
proof -
  from assms have "(a, u) \<in> set xs" and "(b, v) \<in> set xs"
    by (auto dest: map_of_SomeD)
  with assms(3) have "{(a, u), (b, v)} \<subseteq> set xs" and "card {(a, u), (b, v)} = 2"
    by auto
  then have "2 \<le> card (set xs)" by (metis card_mono List.finite_set)
  also have "\<dots> \<le> length xs" by (rule card_length)
  finally show ?thesis .
qed

lemma violation_window_keys:
  "map fst (violation_window laps d ns) = filter (\<lambda>n. 0 < n \<and> find_lap laps d n \<noteq> None) ns"
  by (induction ns) (auto split: option.splits)

lemma violation_window_lookup:
  "map_of (violation_window laps d ns) n =
     (if n \<in> set ns \<and> 0 < n then map_option (\<lambda>r. telemetry_of_lap r n) (find_lap laps d n)
      else None)"
  by (induction ns) (auto split: option.splits)

lemma violation_window_speed:
  "Option.bind (map_of (violation_window laps d ns) n) speed_fl =
     (if n \<in> set ns then finish_line_speed laps d n else None)"
  by (cases "find_lap laps d n")
     (simp_all add: violation_window_lookup finish_line_speed_def telemetry_of_lap_def)

lemma violation_anomalies_of_window:
  assumes "distinct (map fst td)"
  shows "va_anomalies (violation_patterns td violation_lap) =
     (case (Option.bind (map_of td violation_lap) speed_fl,
            Option.bind (map_of td (violation_lap - 1)) speed_fl) of
        (Some cur, Some prev) \<Rightarrow> if \<bar>cur - prev\<bar> > 10 then [SpeedChange (cur - prev)] else []
      | _ \<Rightarrow> [])"
proof -
  let ?sp = "speeds_of td"
  have len: "2 \<le> length ?sp"
    if "map_of ?sp violation_lap = Some u" and "map_of ?sp (violation_lap - 1) = Some v" for u v
    using two_keys_length [OF that] by simp
  show ?thesis
    unfolding speeds_lookup [OF assms, symmetric]
    using len by (auto simp: violation_patterns_def Let_def split: option.splits)
qed

text \<open>
  C6 (as amended). In the telemetry correlation of a track-limits violation, whose
  window is the violation lap and the laps before and after it, an anomaly is flagged
  exactly when the violation lap and the lap before it both have a finish-line speed and
  the absolute difference of the two speeds exceeds 10 km/h (an increase as well as a
  drop); the anomaly carries the signed change, and no other anomaly is flagged.
\<close>

theorem violation_speed_anomaly:
  "lap_data st = Some laps \<longrightarrow>
   (\<exists>vt. analyze_violation_telemetry st d violation_lap = Some vt
      \<and> map fst (vt_lap_data vt) =
          filter (\<lambda>n. 0 < n \<and> find_lap laps d n \<noteq> None)
            [violation_lap - 1, violation_lap, violation_lap + 1]
      \<and> va_anomalies (vt_analysis vt) =
          (case (finish_line_speed laps d violation_lap,
                 finish_line_speed laps d (violation_lap - 1)) of
             (Some cur, Some prev) \<Rightarrow>
               if \<bar>cur - prev\<bar> > 10 then [SpeedChange (cur - prev)] else []
           | _ \<Rightarrow> []))"
proof
  assume l: "lap_data st = Some laps"
  let ?ns = "[violation_lap - 1, violation_lap, violation_lap + 1]"
  let ?td = "violation_window laps d ?ns"
  have "distinct (map fst ?td)"
    unfolding violation_window_keys by (rule distinct_filter) simp
  from violation_anomalies_of_window [OF this, of violation_lap]
  have an: "va_anomalies (violation_patterns ?td violation_lap) =
          (case (finish_line_speed laps d violation_lap,
                 finish_line_speed laps d (violation_lap - 1)) of
             (Some cur, Some prev) \<Rightarrow>
               if \<bar>cur - prev\<bar> > 10 then [SpeedChange (cur - prev)] else []
           | _ \<Rightarrow> [])"
    unfolding violation_window_speed by simp
  from l have eq: "analyze_violation_telemetry st d violation_lap =
      Some \<lparr> vt_lap_data = ?td, vt_analysis = violation_patterns ?td violation_lap \<rparr>"
    by (simp add: analyze_violation_telemetry_def Let_def del: violation_window.simps)
  show "\<exists>vt. analyze_violation_telemetry st d violation_lap = Some vt
      \<and> map fst (vt_lap_data vt) =
          filter (\<lambda>n. 0 < n \<and> find_lap laps d n \<noteq> None)
            [violation_lap - 1, violation_lap, violation_lap + 1]
      \<and> va_anomalies (vt_analysis vt) =
          (case (finish_line_speed laps d violation_lap,
                 finish_line_speed laps d (violation_lap - 1)) of
             (Some cur, Some prev) \<Rightarrow>
               if \<bar>cur - prev\<bar> > 10 then [SpeedChange (cur - prev)] else []
           | _ \<Rightarrow> [])"
    unfolding eq by (simp add: an violation_window_keys del: violation_window.simps)
qed

theorem violation_speed_anomaly_witness:
  "lap_data ex_gain_state = Some ex_gain_laps
   \<and> finish_line_speed ex_gain_laps ''PIA'' 30 = Some 315
   \<and> finish_line_speed ex_gain_laps ''PIA'' 29 = Some 300
   \<and> (\<exists>vt. analyze_violation_telemetry ex_gain_state ''PIA'' 30 = Some vt
        \<and> map fst (vt_lap_data vt) = [29, 30, 31]
        \<and> va_anomalies (vt_analysis vt) = [SpeedChange 15])"
proof -
  have l: "lap_data ex_gain_state = Some ex_gain_laps" by (simp add: ex_gain_state_def)
  have a: "finish_line_speed ex_gain_laps ''PIA'' 30 = Some 315"
    and b: "finish_line_speed ex_gain_laps ''PIA'' 29 = Some 300"
    by code_simp+
  have k: "filter (\<lambda>n. 0 < n \<and> find_lap ex_gain_laps ''PIA'' n \<noteq> None) [30 - 1, 30, 30 + 1]
            = [29, 30, 31]"
    by code_simp
  from violation_speed_anomaly [of ex_gain_state ex_gain_laps "''PIA''" 30, rule_format, OF l]
  have "\<exists>vt. analyze_violation_telemetry ex_gain_state ''PIA'' 30 = Some vt
        \<and> map fst (vt_lap_data vt) = [29, 30, 31]
        \<and> va_anomalies (vt_analysis vt) = [SpeedChange 15]"
    unfolding k by (simp add: a b)
  with l a b show ?thesis by (intro conjI)
qed

text \<open>
  C6 as stated fails: a speed gain of 15 km/h over the lap before (no drop at all) is
  flagged.
\<close>

theorem violation_speed_gain_counterexample:
  "finish_line_speed ex_gain_laps ''PIA'' 29 = Some 300
   \<and> finish_line_speed ex_gain_laps ''PIA'' 30 = Some 315
   \<and> \<not> (300 - 315 > (10::rat))
   \<and> map_option (\<lambda>vt. va_anomalies (vt_analysis vt))
        (analyze_violation_telemetry ex_gain_state ''PIA'' 30) = Some [SpeedChange 15]"
  by code_simp

section \<open>The pit-strategy scanner on a lap table with a gap\<close>

text \<open>
  C7. The claim holds of the specification but not of the code: driver ALB has rows for
  laps 1, 2, 3, 5 and 6 (no row for lap 4) and a pit-in on lap 5. The scanner looks up
  the position on lap 4 with \<open>.iloc[0]\<close> on an empty selection and raises IndexError
  instead of reporting an unavailable position.
\<close>

theorem pit_strategy_missing_lap_raises:
  "find_lap ex_gap_laps ''ALB'' 4 = None
   \<and> analyze_pit_stop_strategies ex_gap_state = Inl IndexError"
  by code_simp

section \<open>Properties of the position-change scanner\<close>

lemma change_core_parser:
  "map_option change_core (change_of td m d pr) = map_option change_core (change_of td' m d pr)"
  by (simp add: change_of_def change_core_def Let_def split: option.splits)

lemma map_filter_core:
  assumes "\<And>x. map_option g (f x) = map_option g (f' x)"
  shows "map g (List.map_filter f xs) = map g (List.map_filter f' xs)"
proof (induction xs)
  case Nil
  show ?case by (simp add: List.map_filter_simps)
next
  case (Cons x xs)
  from assms [of x] Cons show ?case
    by (cases "f x"; cases "f' x") (simp_all add: List.map_filter_simps)
qed

lemma encountered_core_parser:
  "map change_core (encountered_changes td m laps) = map change_core (encountered_changes td' m laps)"
proof -
  have "map change_core (driver_changes td m laps d) = map change_core (driver_changes td' m laps d)"
    for d
    unfolding driver_changes_def Let_def
    by (rule map_filter_core) (rule change_core_parser)
  then show ?thesis
    by (simp add: encountered_changes_def map_concat o_def)
qed

lemma sort_key_map_core:
  assumes "\<And>x. k x = h (g x)"
  shows "map g (sort_key k xs) = sort_key h (map g xs)"
proof (induction xs)
  case Nil
  show ?case by simp
next
  case (Cons x xs)
  have ins: "map g (insort_key k x ys) = insort_key h (g x) (map g ys)" for ys
    by (induction ys) (simp_all add: assms)
  from Cons show ?case by (simp add: ins)
qed

lemma position_changes_core_parser:
  "map change_core (analyze_position_changes td st m)
     = map change_core (analyze_position_changes td' st m)"
proof (cases "lap_data st")
  case None
  then show ?thesis by (simp add: analyze_position_changes_def)
next
  case (Some laps)
  have k: "- \<bar>pc_change x\<bar> = (\<lambda>c. - \<bar>fst (snd (snd (snd (snd c))))\<bar>) (change_core x)" for x
    by (simp add: change_core_def)
  show ?thesis
    unfolding analyze_position_changes_def Some option.case
      sort_key_map_core [of "\<lambda>x. - \<bar>pc_change x\<bar>" _ change_core, OF k]
    by (simp only: encountered_core_parser [of td m laps td'])
qed

lemma lap_time_anomaly_source:
  assumes "a \<in> set (snd (lap_time_comparison td p c))"
  shows "\<exists>x. a = LapTimeChange x"
  using assms by (auto simp: lap_time_comparison_def Let_def split: option.splits)

lemma lap_time_parse_failure:
  assumes "td (LapTime p) = None \<or> td (LapTime c) = None"
  shows "lap_time_comparison td p c = (None, [])"
  using assms by (auto simp: lap_time_comparison_def split: option.splits)

lemma speed_anomaly_source:
  assumes "a \<in> set (snd (speed_comparison p c fld))"
  shows "\<exists>x. a = FieldSpeedChange (fst fld) x"
  using assms by (auto simp: speed_comparison_def Let_def split: option.splits if_splits)

lemma sector_anomaly_source:
  assumes "a \<in> set (snd (sector_comparison td p c fld))"
  shows "\<exists>x. a = FieldSectorChange (fst fld) x"
  using assms by (auto simp: sector_comparison_def Let_def split: option.splits if_splits)

lemma sector_parse_failure:
  assumes "td (snd fld p) = None \<or> td (snd fld c) = None"
  shows "sector_comparison td p c fld = ([], [])"
  using assms by (auto simp: sector_comparison_def split: option.splits)

lemma sector_entry_source:
  assumes "e \<in> set (fst (sector_comparison td p c fld))"
  shows "fst e = fst fld"
  using assms by (auto simp: sector_comparison_def Let_def split: option.splits if_splits)

lemma sector_fields_distinct: "distinct (map fst sector_fields)"
  by (simp add: sector_fields_def)

lemma sector_field_unique:
  assumes "(name, get) \<in> set sector_fields" and "fld \<in> set sector_fields" and "fst fld = name"
  shows "fld = (name, get)"
proof -
  obtain n g where fld: "fld = (n, g)" by (cases fld)
  with assms(3) have "n = name" by simp
  with fld assms(1,2) eq_key_imp_eq_value [OF sector_fields_distinct, of name get g]
  show ?thesis by simp
qed

text \<open>
  What the comparison of two laps does when the duration parser raises: when it raises
  on the lap time of either lap, the lap-time change stays unset and no lap-time anomaly
  is listed; when it raises on a sector time of either lap, that sector has no entry
  among the sector changes and no anomaly. The speed and tyre comparisons do not depend
  on the parser, and neither do the position-change records apart from their telemetry
  comparison: the scanner returns the same records, in the same order, whatever the
  parser does.
\<close>

lemma parse_failure_omits_field_only:
  "(td (LapTime prev_lap) = None \<or> td (LapTime curr_lap) = None \<longrightarrow>
      lap_time_change (compare_lap_telemetry td prev_lap curr_lap) = None
      \<and> (\<forall>x. LapTimeChange x \<notin> set (cmp_anomalies (compare_lap_telemetry td prev_lap curr_lap))))
   \<and> ((name, get) \<in> set sector_fields
        \<and> (td (get prev_lap) = None \<or> td (get curr_lap) = None) \<longrightarrow>
      map_of (sector_changes (compare_lap_telemetry td prev_lap curr_lap)) name = None
      \<and> (\<forall>x. FieldSectorChange name x
             \<notin> set (cmp_anomalies (compare_lap_telemetry td prev_lap curr_lap))))
   \<and> speed_changes (compare_lap_telemetry td prev_lap curr_lap)
       = speed_changes (compare_lap_telemetry td' prev_lap curr_lap)
   \<and> tire_changes (compare_lap_telemetry td prev_lap curr_lap)
       = tire_changes (compare_lap_telemetry td' prev_lap curr_lap)
   \<and> map change_core (analyze_position_changes td st m)
       = map change_core (analyze_position_changes td' st m)"
proof (intro conjI impI allI)
  assume f: "td (LapTime prev_lap) = None \<or> td (LapTime curr_lap) = None"
  show "lap_time_change (compare_lap_telemetry td prev_lap curr_lap) = None"
    by (simp add: compare_lap_telemetry_def Let_def lap_time_parse_failure [OF f])
  fix x
  show "LapTimeChange x \<notin> set (cmp_anomalies (compare_lap_telemetry td prev_lap curr_lap))"
    using speed_anomaly_source sector_anomaly_source
    by (fastforce simp: compare_lap_telemetry_def Let_def lap_time_parse_failure [OF f])
next
  assume h: "(name, get) \<in> set sector_fields
        \<and> (td (get prev_lap) = None \<or> td (get curr_lap) = None)"
  have empty: "sector_comparison td prev_lap curr_lap fld = ([], [])"
    if "fld \<in> set sector_fields" and "fst fld = name" for fld
  proof -
    from sector_field_unique [of name get fld] h that have "fld = (name, get)" by simp
    with h show ?thesis by (simp add: sector_parse_failure)
  qed
  show "map_of (sector_changes (compare_lap_telemetry td prev_lap curr_lap)) name = None"
  proof (rule ccontr)
    assume "map_of (sector_changes (compare_lap_telemetry td prev_lap curr_lap)) name \<noteq> None"
    then obtain v where "(name, v) \<in> set (sector_changes (compare_lap_telemetry td prev_lap curr_lap))"
      by (auto dest: map_of_SomeD)
    then obtain fld where fld: "fld \<in> set sector_fields"
      and e: "(name, v) \<in> set (fst (sector_comparison td prev_lap curr_lap fld))"
      by (auto simp: compare_lap_telemetry_def Let_def)
    from sector_entry_source [OF e] have "fst fld = name" by simp
    from empty [OF fld this] e show False by simp
  qed
  fix x
  show "FieldSectorChange name x
          \<notin> set (cmp_anomalies (compare_lap_telemetry td prev_lap curr_lap))"
  proof
    assume "FieldSectorChange name x
          \<in> set (cmp_anomalies (compare_lap_telemetry td prev_lap curr_lap))"
    then consider "FieldSectorChange name x \<in> set (snd (lap_time_comparison td prev_lap curr_lap))"
      | fld where "fld \<in> set speed_fields"
          "FieldSectorChange name x \<in> set (snd (speed_comparison prev_lap curr_lap fld))"
      | fld where "fld \<in> set sector_fields"
          "FieldSectorChange name x \<in> set (snd (sector_comparison td prev_lap curr_lap fld))"
      by (auto simp: compare_lap_telemetry_def Let_def)
    then show False
    proof cases
      case 1
      from lap_time_anomaly_source [OF this] show False by simp
    next
      case 2
      from speed_anomaly_source [OF this(2)] show False by simp
    next
      case 3
      from sector_anomaly_source [OF this(2)] have "fst fld = name" by simp
      from empty [OF 3(1) this] 3(2) show False by simp
    qed
  qed
next
  show "speed_changes (compare_lap_telemetry td prev_lap curr_lap)
       = speed_changes (compare_lap_telemetry td' prev_lap curr_lap)"
    by (simp add: compare_lap_telemetry_def Let_def)
  show "tire_changes (compare_lap_telemetry td prev_lap curr_lap)
       = tire_changes (compare_lap_telemetry td' prev_lap curr_lap)"
    by (simp add: compare_lap_telemetry_def Let_def)
  show "map change_core (analyze_position_changes td st m)
       = map change_core (analyze_position_changes td' st m)"
    by (rule position_changes_core_parser)
qed

lemma parse_failure_omits_field_only_example:
  "ex_parser (LapTime ex_bad_curr) = None
   \<and> lap_time_change (compare_lap_telemetry ex_parser ex_bad_prev ex_bad_curr) = None
   \<and> (''Sector1Time'', Sector1Time) \<in> set sector_fields
   \<and> ex_parser (Sector1Time ex_bad_curr) = None
   \<and> map_of (sector_changes (compare_lap_telemetry ex_parser ex_bad_prev ex_bad_curr)) ''Sector1Time''
       = None
   \<and> sector_changes (compare_lap_telemetry ex_parser ex_bad_prev ex_bad_curr)
       = [(''Sector2Time'', Num 3)]
   \<and> map change_core (analyze_position_changes ex_parser ex_bad_state 5)
       = [(''PER'', 10, 5, 12, - 7, ''1:2x.5'', ''81s'', None, None)]
   \<and> map change_core (analyze_position_changes ex_parser ex_bad_state 5)
       = map change_core (analyze_position_changes (\<lambda>c. None) ex_bad_state 5)"
proof -
  note inst = parse_failure_omits_field_only
    [where td = ex_parser and prev_lap = ex_bad_prev and curr_lap = ex_bad_curr
       and name = "''Sector1Time''" and get = Sector1Time and td' = "\<lambda>c. None"
       and st = ex_bad_state and m = 5]
  have a: "ex_parser (LapTime ex_bad_curr) = None" by code_simp
  have b: "(''Sector1Time'', Sector1Time) \<in> set sector_fields" by (simp add: sector_fields_def)
  have c: "ex_parser (Sector1Time ex_bad_curr) = None" by code_simp
  have d: "sector_changes (compare_lap_telemetry ex_parser ex_bad_prev ex_bad_curr)
       = [(''Sector2Time'', Num 3)]" by code_simp
  have e: "map change_core (analyze_position_changes ex_parser ex_bad_state 5)
       = [(''PER'', 10, 5, 12, - 7, ''1:2x.5'', ''81s'', None, None)]" by code_simp
  from a have a': "ex_parser (LapTime ex_bad_prev) = None \<or> ex_parser (LapTime ex_bad_curr) = None"
    by (rule disjI2)
  from b c have b': "(''Sector1Time'', Sector1Time) \<in> set sector_fields
      \<and> (ex_parser (Sector1Time ex_bad_prev) = None \<or> ex_parser (Sector1Time ex_bad_curr) = None)"
    by (intro conjI disjI2)
  note r1 = inst [THEN conjunct1, rule_format, OF a', THEN conjunct1]
  note r2 = inst [THEN conjunct2, THEN conjunct1, rule_format, OF b', THEN conjunct1]
  note r3 = inst [THEN conjunct2, THEN conjunct2, THEN conjunct2, THEN conjunct2]
  from a r1 b c r2 d e r3 show ?thesis by (intro conjI)
qed

text \<open>
  C9. The claim holds of the specification but not of the code. Driver PER moves from
  position 5 on lap 9 to position 12 on lap 10, and the lap time of lap 10 is missing.
  The sector loop tests \<open>pd.isna\<close> before it parses, so the missing sector times leave
  no entry; the lap-time block has no such test, the missing cell parses to NaT without
  raising, and the lap-time change is reported as NaN (printed \<open>+nans\<close>) instead of
  staying unset. The record is still produced.
\<close>

theorem missing_lap_time_reported_as_nan:
  "map LapTime ex_missing_laps = [Some ''81s'', None]
   \<and> ex_parser None = Some NaN
   \<and> map change_core (analyze_position_changes ex_parser ex_missing_state 5)
       = [(''PER'', 10, 5, 12, - 7, ''nan'', ''81s'', None, None)]
   \<and> map (\<lambda>pc. lap_time_change (pc_telemetry_comparison pc))
         (analyze_position_changes ex_parser ex_missing_state 5) = [Some NaN]
   \<and> map (\<lambda>pc. sector_changes (pc_telemetry_comparison pc))
         (analyze_position_changes ex_parser ex_missing_state 5) = [[]]"
  by code_simp

lemma set_unique: "set (unique xs) = set xs"
  by (induction xs rule: unique.induct) auto

lemma set_map_filter_iff: "y \<in> set (List.map_filter f xs) \<longleftrightarrow> (\<exists>x\<in>set xs. f x = Some y)"
  by (induction xs) (auto split: option.splits)

lemma in_zip_tl:
  "(a, b) \<in> set (zip xs (tl xs)) \<longleftrightarrow> (\<exists>i. Suc i < length xs \<and> a = xs ! i \<and> b = xs ! Suc i)"
proof
  assume "(a, b) \<in> set (zip xs (tl xs))"
  then obtain n where n: "xs ! n = a" "tl xs ! n = b" "n < length xs" "n < length (tl xs)"
    by (auto simp: in_set_zip)
  from n(4) have "Suc n < length xs" by simp
  moreover from n(2,4) have "b = xs ! Suc n" by (simp add: nth_tl)
  ultimately show "\<exists>i. Suc i < length xs \<and> a = xs ! i \<and> b = xs ! Suc i"
    using n(1) by blast
next
  assume "\<exists>i. Suc i < length xs \<and> a = xs ! i \<and> b = xs ! Suc i"
  then obtain i where i: "Suc i < length xs" "a = xs ! i" "b = xs ! Suc i" by blast
  then have "i < length (tl xs)" by simp
  with i show "(a, b) \<in> set (zip xs (tl xs))"
    by (auto simp: in_set_zip nth_tl intro!: exI [of _ i])
qed

lemma driver_laps_set: "set (driver_laps laps d) = {r \<in> set laps. Driver r = d}"
  by (auto simp: driver_laps_def)

lemma driver_laps_sorted: "sorted (map LapNumber (driver_laps laps d))"
  by (simp add: driver_laps_def)

lemma change_of_fields:
  assumes "change_of td m d (prv, cur) = Some pc"
  shows "\<exists>p c. Position prv = Some p \<and> Position cur = Some c \<and> p \<noteq> c
           \<and> pc_driver pc = d \<and> pc_lap pc = LapNumber cur
           \<and> pc_from_position pc = p \<and> pc_to_position pc = c
           \<and> pc_change pc = p - c \<and> m \<le> \<bar>pc_change pc\<bar>"
  using assms
  by (auto simp: change_of_def Let_def split: option.splits if_splits)

lemma change_of_reported:
  assumes "Position prv = Some p" and "Position cur = Some c" and "p \<noteq> c"
    and "m \<le> \<bar>p - c\<bar>"
  shows "\<exists>pc. change_of td m d (prv, cur) = Some pc
           \<and> pc_driver pc = d \<and> pc_lap pc = LapNumber cur
           \<and> pc_from_position pc = p \<and> pc_to_position pc = c \<and> pc_change pc = p - c"
  using assms by (simp add: change_of_def Let_def)

lemma driver_changes_iff:
  "pc \<in> set (driver_changes td m laps d) \<longleftrightarrow>
     (\<exists>i. Suc i < length (driver_laps laps d)
        \<and> change_of td m d (driver_laps laps d ! i, driver_laps laps d ! Suc i) = Some pc)"
proof -
  let ?dl = "driver_laps laps d"
  have "pc \<in> set (driver_changes td m laps d) \<longleftrightarrow>
          (\<exists>a b. (a, b) \<in> set (zip ?dl (tl ?dl)) \<and> change_of td m d (a, b) = Some pc)"
    by (auto simp: driver_changes_def Let_def set_map_filter_iff)
  also have "\<dots> \<longleftrightarrow> (\<exists>i. Suc i < length ?dl \<and> change_of td m d (?dl ! i, ?dl ! Suc i) = Some pc)"
    unfolding in_zip_tl by blast
  finally show ?thesis .
qed

lemma encountered_iff:
  "pc \<in> set (encountered_changes td m laps) \<longleftrightarrow>
     (\<exists>d\<in>set (map Driver laps). \<exists>i. Suc i < length (driver_laps laps d)
        \<and> change_of td m d (driver_laps laps d ! i, driver_laps laps d ! Suc i) = Some pc)"
  unfolding encountered_changes_def set_concat set_map set_unique
  using driver_changes_iff [of pc td m laps] by blast

lemma position_changes_set:
  "lap_data st = Some laps \<Longrightarrow>
     set (analyze_position_changes td st m) = set (encountered_changes td m laps)"
  by (simp add: analyze_position_changes_def)

lemma sorted_neg_abs:
  "sorted (map (\<lambda>x. - \<bar>f x :: int\<bar>) xs) \<longleftrightarrow> sorted_wrt (\<lambda>a b. \<bar>f b\<bar> \<le> \<bar>f a\<bar>) xs"
  by (simp add: sorted_map)

lemma driver_laps_none_between:
  assumes "Suc i < length (driver_laps laps d)" and "r \<in> set laps" and "Driver r = d"
  shows "\<not> (LapNumber (driver_laps laps d ! i) < LapNumber r
            \<and> LapNumber r < LapNumber (driver_laps laps d ! Suc i))"
proof -
  let ?dl = "driver_laps laps d"
  from assms(2,3) have "r \<in> set ?dl" by (simp add: driver_laps_set)
  then obtain j where j: "j < length ?dl" and r: "?dl ! j = r"
    by (auto simp: in_set_conv_nth)
  have mono: "LapNumber (?dl ! a) \<le> LapNumber (?dl ! b)" if "a \<le> b" and "b < length ?dl" for a b
  proof -
    from that driver_laps_sorted [of laps d]
    have "map LapNumber ?dl ! a \<le> map LapNumber ?dl ! b"
      by (simp add: sorted_iff_nth_mono del: nth_map)
    with that show ?thesis by simp
  qed
  show ?thesis
  proof (cases "j \<le> i")
    case True
    from mono [OF True] assms(1) r show ?thesis by simp
  next
    case False
    then have "Suc i \<le> j" by simp
    from mono [OF this j] r show ?thesis by simp
  qed
qed

text \<open>
  C1 (as amended). With the lap data loaded and any \<open>min_change = m\<close>: every position
  change reported comes from two rows of one driver that are adjacent in that driver's
  rows ordered by lap number (no row of the driver has a lap number strictly between
  theirs; the two lap numbers need not differ by one), both with a position; its \<open>from\<close>
  and \<open>to\<close> positions are theirs, its lap is the later row's, its signed change is
  previous minus current position, and \<open>|change| \<ge> m\<close>. Conversely each such pair with
  different positions and \<open>|previous - current| \<ge> m\<close> is reported. The list returned is
  in descending order of \<open>|change|\<close>, and the records of equal \<open>|change|\<close> keep the order
  in which the scan met them (drivers in order of first appearance, each driver's rows
  in lap order).
\<close>

theorem position_changes_sound_sorted_stable:
  "lap_data st = Some laps \<longrightarrow>
     (\<forall>pc\<in>set (analyze_position_changes td st m).
        \<exists>i p c. Suc i < length (driver_laps laps (pc_driver pc))
          \<and> Driver (driver_laps laps (pc_driver pc) ! i) = pc_driver pc
          \<and> Driver (driver_laps laps (pc_driver pc) ! Suc i) = pc_driver pc
          \<and> LapNumber (driver_laps laps (pc_driver pc) ! i)
              \<le> LapNumber (driver_laps laps (pc_driver pc) ! Suc i)
          \<and> Position (driver_laps laps (pc_driver pc) ! i) = Some p
          \<and> Position (driver_laps laps (pc_driver pc) ! Suc i) = Some c
          \<and> pc_lap pc = LapNumber (driver_laps laps (pc_driver pc) ! Suc i)
          \<and> pc_from_position pc = p \<and> pc_to_position pc = c
          \<and> pc_change pc = p - c \<and> m \<le> \<bar>pc_change pc\<bar>
          \<and> (\<forall>r\<in>set laps. Driver r = pc_driver pc \<longrightarrow>
                \<not> (LapNumber (driver_laps laps (pc_driver pc) ! i) < LapNumber r
                   \<and> LapNumber r < LapNumber (driver_laps laps (pc_driver pc) ! Suc i))))
   \<and> (\<forall>d i p c. Suc i < length (driver_laps laps d)
          \<and> Position (driver_laps laps d ! i) = Some p
          \<and> Position (driver_laps laps d ! Suc i) = Some c
          \<and> p \<noteq> c \<and> m \<le> \<bar>p - c\<bar>
        \<longrightarrow> (\<exists>pc\<in>set (analyze_position_changes td st m).
               pc_driver pc = d \<and> pc_lap pc = LapNumber (driver_laps laps d ! Suc i)
               \<and> pc_from_position pc = p \<and> pc_to_position pc = c \<and> pc_change pc = p - c))
   \<and> sorted_wrt (\<lambda>a b. \<bar>pc_change b\<bar> \<le> \<bar>pc_change a\<bar>) (analyze_position_changes td st m)
   \<and> (\<forall>k. filter (\<lambda>x. \<bar>pc_change x\<bar> = k) (analyze_position_changes td st m)
            = filter (\<lambda>x. \<bar>pc_change x\<bar> = k) (encountered_changes td m laps))"
proof (intro impI conjI ballI allI)
  fix pc
  assume l: "lap_data st = Some laps" and "pc \<in> set (analyze_position_changes td st m)"
  then have "pc \<in> set (encountered_changes td m laps)"
    by (simp add: position_changes_set)
  then obtain d i where i: "Suc i < length (driver_laps laps d)"
    and ch: "change_of td m d (driver_laps laps d ! i, driver_laps laps d ! Suc i) = Some pc"
    unfolding encountered_iff by blast
  from change_of_fields [OF ch] obtain p c
    where f: "Position (driver_laps laps d ! i) = Some p"
      "Position (driver_laps laps d ! Suc i) = Some c"
      "pc_driver pc = d" "pc_lap pc = LapNumber (driver_laps laps d ! Suc i)"
      "pc_from_position pc = p" "pc_to_position pc = c"
      "pc_change pc = p - c" "m \<le> \<bar>pc_change pc\<bar>"
    by blast
  from i have "driver_laps laps d ! i \<in> set (driver_laps laps d)"
    and "driver_laps laps d ! Suc i \<in> set (driver_laps laps d)"
    by simp_all
  then have dr: "Driver (driver_laps laps d ! i) = d" "Driver (driver_laps laps d ! Suc i) = d"
    by (simp_all add: driver_laps_set)
  from i driver_laps_sorted [of laps d]
  have "map LapNumber (driver_laps laps d) ! i \<le> map LapNumber (driver_laps laps d) ! Suc i"
    by (simp add: sorted_iff_nth_mono del: nth_map)
  with i have le: "LapNumber (driver_laps laps d ! i) \<le> LapNumber (driver_laps laps d ! Suc i)"
    by simp
  from driver_laps_none_between [OF i]
  have nb: "\<forall>r\<in>set laps. Driver r = d \<longrightarrow>
                \<not> (LapNumber (driver_laps laps d ! i) < LapNumber r
                   \<and> LapNumber r < LapNumber (driver_laps laps d ! Suc i))"
    by blast
  from i dr le f nb
  show "\<exists>i p c. Suc i < length (driver_laps laps (pc_driver pc))
          \<and> Driver (driver_laps laps (pc_driver pc) ! i) = pc_driver pc
          \<and> Driver (driver_laps laps (pc_driver pc) ! Suc i) = pc_driver pc
          \<and> LapNumber (driver_laps laps (pc_driver pc) ! i)
              \<le> LapNumber (driver_laps laps (pc_driver pc) ! Suc i)
          \<and> Position (driver_laps laps (pc_driver pc) ! i) = Some p
          \<and> Position (driver_laps laps (pc_driver pc) ! Suc i) = Some c
          \<and> pc_lap pc = LapNumber (driver_laps laps (pc_driver pc) ! Suc i)
          \<and> pc_from_position pc = p \<and> pc_to_position pc = c
          \<and> pc_change pc = p - c \<and> m \<le> \<bar>pc_change pc\<bar>
          \<and> (\<forall>r\<in>set laps. Driver r = pc_driver pc \<longrightarrow>
                \<not> (LapNumber (driver_laps laps (pc_driver pc) ! i) < LapNumber r
                   \<and> LapNumber r < LapNumber (driver_laps laps (pc_driver pc) ! Suc i)))"
    by (intro exI [of _ i] exI [of _ p] exI [of _ c]) simp
next
  fix d i p c
  assume l: "lap_data st = Some laps"
    and h: "Suc i < length (driver_laps laps d)
          \<and> Position (driver_laps laps d ! i) = Some p
          \<and> Position (driver_laps laps d ! Suc i) = Some c
          \<and> p \<noteq> c \<and> m \<le> \<bar>p - c\<bar>"
  from h have "driver_laps laps d ! i \<in> set (driver_laps laps d)" by simp
  then have mem: "driver_laps laps d ! i \<in> set laps" and dr: "Driver (driver_laps laps d ! i) = d"
    by (simp_all add: driver_laps_set)
  from mem have "Driver (driver_laps laps d ! i) \<in> set (map Driver laps)" by simp
  then have d: "d \<in> set (map Driver laps)" unfolding dr .
  from h change_of_reported [of "driver_laps laps d ! i" p "driver_laps laps d ! Suc i" c m td d]
  obtain pc where pc: "change_of td m d (driver_laps laps d ! i, driver_laps laps d ! Suc i) = Some pc"
    and f: "pc_driver pc = d \<and> pc_lap pc = LapNumber (driver_laps laps d ! Suc i)
           \<and> pc_from_position pc = p \<and> pc_to_position pc = c \<and> pc_change pc = p - c"
    by blast
  from d h pc have "pc \<in> set (encountered_changes td m laps)"
    unfolding encountered_iff by blast
  with l have "pc \<in> set (analyze_position_changes td st m)"
    by (simp add: position_changes_set)
  with f show "\<exists>pc\<in>set (analyze_position_changes td st m).
               pc_driver pc = d \<and> pc_lap pc = LapNumber (driver_laps laps d ! Suc i)
               \<and> pc_from_position pc = p \<and> pc_to_position pc = c \<and> pc_change pc = p - c"
    by blast
next
  show "sorted_wrt (\<lambda>a b. \<bar>pc_change b\<bar> \<le> \<bar>pc_change a\<bar>) (analyze_position_changes td st m)"
    using position_changes_sorted [of td st m] unfolding sorted_neg_abs .
next
  fix k
  assume l: "lap_data st = Some laps"
  have "filter (\<lambda>x. - \<bar>pc_change x\<bar> = - k)
          (sort_key (\<lambda>x. - \<bar>pc_change x\<bar>) (encountered_changes td m laps))
        = filter (\<lambda>x. - \<bar>pc_change x\<bar> = - k) (encountered_changes td m laps)"
    by (rule sort_key_stable)
  with l show "filter (\<lambda>x. \<bar>pc_change x\<bar> = k) (analyze_position_changes td st m)
            = filter (\<lambda>x. \<bar>pc_change x\<bar> = k) (encountered_changes td m laps)"
    by (simp add: analyze_position_changes_def)
qed

theorem position_changes_sound_sorted_stable_witness:
  "lap_data ex_per_state = Some ex_per_laps
   \<and> map LapNumber (driver_laps ex_per_laps ''PER'') = [9, 10]
   \<and> map Position (driver_laps ex_per_laps ''PER'') = [Some 5, Some 12]
   \<and> map (\<lambda>pc. (pc_driver pc, pc_lap pc, pc_from_position pc, pc_to_position pc, pc_change pc))
         (analyze_position_changes (\<lambda>c. None) ex_per_state 5) = [(''PER'', 10, 5, 12, - 7)]
   \<and> (\<exists>pc\<in>set (analyze_position_changes (\<lambda>c. None) ex_per_state 5).
         pc_driver pc = ''PER'' \<and> pc_lap pc = 10
         \<and> pc_from_position pc = 5 \<and> pc_to_position pc = 12 \<and> pc_change pc = 5 - 12)"
proof -
  have l: "lap_data ex_per_state = Some ex_per_laps" by (simp add: ex_per_state_def)
  have n: "map LapNumber (driver_laps ex_per_laps ''PER'') = [9, 10]"
    and p: "map Position (driver_laps ex_per_laps ''PER'') = [Some 5, Some 12]"
    by code_simp+
  have e: "map (\<lambda>pc. (pc_driver pc, pc_lap pc, pc_from_position pc, pc_to_position pc, pc_change pc))
         (analyze_position_changes (\<lambda>c. None) ex_per_state 5) = [(''PER'', 10, 5, 12, - 7)]"
    by code_simp
  let ?dl = "driver_laps ex_per_laps ''PER''"
  from n have "length (map LapNumber ?dl) = 2" by simp
  then have len: "length ?dl = 2" by simp
  from len have "LapNumber (?dl ! Suc 0) = map LapNumber ?dl ! Suc 0"
    and "Position (?dl ! 0) = map Position ?dl ! 0"
    and "Position (?dl ! Suc 0) = map Position ?dl ! Suc 0"
    by simp_all
  with n p have q:
    "LapNumber (driver_laps ex_per_laps ''PER'' ! Suc 0) = 10"
    "Position (driver_laps ex_per_laps ''PER'' ! 0) = Some 5"
    "Position (driver_laps ex_per_laps ''PER'' ! Suc 0) = Some 12"
    by simp_all
  from len q have h: "Suc 0 < length (driver_laps ex_per_laps ''PER'')
          \<and> Position (driver_laps ex_per_laps ''PER'' ! 0) = Some 5
          \<and> Position (driver_laps ex_per_laps ''PER'' ! Suc 0) = Some 12
          \<and> (5::int) \<noteq> 12 \<and> (5::int) \<le> \<bar>5 - 12\<bar>"
    by simp
  note r = position_changes_sound_sorted_stable
    [of ex_per_state ex_per_laps "\<lambda>c. None" 5, rule_format, OF l,
     THEN conjunct2, THEN conjunct1, rule_format, OF h]
  from r have x: "\<exists>pc\<in>set (analyze_position_changes (\<lambda>c. None) ex_per_state 5).
         pc_driver pc = ''PER'' \<and> pc_lap pc = 10
         \<and> pc_from_position pc = 5 \<and> pc_to_position pc = 12 \<and> pc_change pc = 5 - 12"
    unfolding q(1) .
  from l n p e x show ?thesis by (intro conjI)
qed

text \<open>
  C1 as stated fails: a driver with rows for laps 1 and 3 only (positions 5 and 12) has
  no pair of consecutive laps, and the scan with \<open>min_change = 5\<close> reports a change on
  lap 3 from position 5 to position 12.
\<close>

theorem position_change_lap_gap_counterexample:
  "map LapNumber ex_skip_laps = [1, 3]
   \<and> \<not> list_ex (\<lambda>r. list_ex (\<lambda>r'. LapNumber r' = LapNumber r + 1) ex_skip_laps) ex_skip_laps
   \<and> map (\<lambda>pc. (pc_driver pc, pc_lap pc, pc_from_position pc, pc_to_position pc, pc_change pc))
         (analyze_position_changes (\<lambda>c. None) ex_skip_state 5) = [(''SAI'', 3, 5, 12, - 7)]"
  by code_simp


section \<open>Properties of the incident telemetry correlation\<close>

lemma py_max_Max: "xs \<noteq> [] \<Longrightarrow> py_max xs = Max (set xs)"
  by (cases xs) (simp_all add: py_max_def Max.set_eq_fold [symmetric])

lemma py_min_Min: "xs \<noteq> [] \<Longrightarrow> py_min xs = Min (set xs)"
  by (cases xs) (simp_all add: py_min_def Min.set_eq_fold [symmetric])

lemma map_filter_Pair_keys:
  "map fst (List.map_filter (\<lambda>(k, d). map_option (Pair k) (f d)) td)
     = map fst (filter (\<lambda>(k, d). f d \<noteq> None) td)"
  by (induction td) (auto split: option.splits)

lemma map_filter_Pair_distinct:
  "distinct (map fst td) \<Longrightarrow>
     distinct (map fst (List.map_filter (\<lambda>(k, d). map_option (Pair k) (f d)) td))"
  unfolding map_filter_Pair_keys by (rule distinct_map_filter)

lemma distinct_keys_length:
  assumes "distinct (map fst xs)"
  shows "length xs = card {n. map_of xs n \<noteq> None}"
proof -
  have "{n. map_of xs n \<noteq> None} = set (map fst xs)"
    by (auto simp: map_of_eq_None_iff)
  with distinct_card [OF assms] show ?thesis by simp
qed

lemma distinct_keys_values:
  assumes "distinct (map fst xs)"
  shows "set (map snd xs) = {v. \<exists>n. map_of xs n = Some v}"
  using assms by (force simp: map_of_eq_Some_iff)

lemma incident_window_keys:
  "map fst (incident_window car laps d ns) = filter (\<lambda>n. 0 < n \<and> find_lap laps d n \<noteq> None) ns"
  by (induction ns) (auto split: option.splits)

lemma incident_window_speed:
  "Option.bind (map_of (incident_window car laps d ns) n) speed_fl =
     (if n \<in> set ns then finish_line_speed laps d n else None)"
  by (induction ns)
     (auto simp: finish_line_speed_def telemetry_of_lap_def split: option.splits)

lemma incident_window_position:
  "Option.bind (map_of (incident_window car laps d ns) n) position =
     (if n \<in> set ns then lap_position laps d n else None)"
  by (induction ns)
     (auto simp: lap_position_def telemetry_of_lap_def split: option.splits)

lemma incident_window_distinct:
  "distinct ns \<Longrightarrow> distinct (map fst (incident_window car laps d ns))"
  unfolding incident_window_keys by (rule distinct_filter)

lemma find_lap_exists:
  "find_lap laps d n \<noteq> None \<longleftrightarrow> (\<exists>r\<in>set laps. Driver r = d \<and> LapNumber r = n)"
  by (auto simp: find_lap_def find_None_iff)

lemma window_five: "set [l - 2, l - 1, l, l + 1, l + 2] = {l - 2 .. l + (2::int)}"
  by auto

lemma window_three: "set [l - 1, l, l + 1] = {l - 1 .. l + (1::int)}"
  by auto

lemma update_member:
  "(a, b) \<in> set (AList.update k v al) \<Longrightarrow> (a, b) = (k, v) \<or> (a, b) \<in> set al"
  by (induction al) (auto split: if_splits)

lemma incident_step_member:
  assumes "(a, da) \<in> set (incident_driver_step car st laps l acc x)"
  shows "(a, da) \<in> set acc
       \<or> (da_lap_data da = incident_window car laps a [l - 2, l - 1, l, l + 1, l + 2]
          \<and> da_analysis da = analyze_telemetry_patterns (da_lap_data da) l)"
proof (cases "get_driver_from_car_number st x")
  case None
  with assms show ?thesis by (simp add: incident_driver_step_def)
next
  case (Some abbrev)
  let ?w = "incident_window car laps abbrev [l - 2, l - 1, l, l + 1, l + 2]"
  show ?thesis
  proof (cases "abbrev = [] \<or> ?w = []")
    case True
    with assms Some show ?thesis
      by (auto simp: incident_driver_step_def Let_def simp del: incident_window.simps
          split: if_splits)
  next
    case False
    with assms Some have "(a, da) \<in> set (AList.update abbrev
         \<lparr> da_driver_number = x, da_lap_data = ?w,
           da_analysis = analyze_telemetry_patterns ?w l \<rparr> acc)"
      by (simp add: incident_driver_step_def Let_def del: incident_window.simps)
    from update_member [OF this] show ?thesis
      by (auto simp del: incident_window.simps)
  qed
qed

lemma incident_fold_member:
  assumes "(a, da) \<in> set (foldl (incident_driver_step car st laps l) acc drivers)"
  shows "(a, da) \<in> set acc
       \<or> (da_lap_data da = incident_window car laps a [l - 2, l - 1, l, l + 1, l + 2]
          \<and> da_analysis da = analyze_telemetry_patterns (da_lap_data da) l)"
  using assms
proof (induction drivers arbitrary: acc)
  case Nil
  then show ?case by simp
next
  case (Cons x drivers)
  from Cons.prems have "(a, da) \<in> set (foldl (incident_driver_step car st laps l)
      (incident_driver_step car st laps l acc x) drivers)" by simp
  from Cons.IH [OF this] incident_step_member [of a da car st laps l acc x]
  show ?case by blast
qed

lemma incident_telemetry_entry:
  assumes "(a, da) \<in> set (analyze_incident_telemetry car st lap drivers)"
  shows "\<exists>l laps. lap = Some l \<and> l \<noteq> 0 \<and> lap_data st = Some laps
           \<and> da_lap_data da = incident_window car laps a [l - 2, l - 1, l, l + 1, l + 2]
           \<and> da_analysis da = analyze_telemetry_patterns (da_lap_data da) l"
proof (cases lap)
  case None
  with assms show ?thesis by (simp add: analyze_incident_telemetry_def)
next
  case l: (Some l)
  show ?thesis
  proof (cases "lap_data st")
    case None
    with assms l show ?thesis by (simp add: analyze_incident_telemetry_def)
  next
    case (Some laps)
    with assms l have z: "l \<noteq> 0"
      and m: "(a, da) \<in> set (foldl (incident_driver_step car st laps l) [] drivers)"
      by (auto simp: analyze_incident_telemetry_def split: if_splits)
    from incident_fold_member [OF m] l Some z show ?thesis by simp
  qed
qed

lemma incident_entry:
  assumes "inc \<in> set (analyze_incidents car st)" and "(a, da) \<in> set (inc_telemetry_analysis inc)"
  shows "\<exists>l laps. inc_lap inc = Some l \<and> l \<noteq> 0 \<and> lap_data st = Some laps
           \<and> da_lap_data da = incident_window car laps a [l - 2, l - 1, l, l + 1, l + 2]
           \<and> da_analysis da = analyze_telemetry_patterns (da_lap_data da) l"
proof -
  from assms(1) obtain m where "inc = make_incident car st m"
    by (auto simp: analyze_incidents_def split: option.splits)
  with assms(2) obtain drivers
    where "(a, da) \<in> set (analyze_incident_telemetry car st (inc_lap inc) drivers)"
    by (auto simp: make_incident_def Let_def)
  from incident_telemetry_entry [OF this] show ?thesis .
qed

lemma incident_window_entries:
  assumes "(n, t) \<in> set (incident_window car laps d ns)"
  shows "1 \<le> n \<and> lap_number t = n
       \<and> (\<exists>r\<in>set laps. Driver r = d \<and> LapNumber r = n
             \<and> position t = Position r \<and> speed_fl t = SpeedFL r)"
  using assms
proof (induction ns)
  case Nil
  then show ?case by simp
next
  case (Cons a ns)
  show ?case
  proof (cases "(n, t) \<in> set (incident_window car laps d ns)")
    case True
    with Cons.IH show ?thesis by simp
  next
    case False
    with Cons.prems obtain r where a: "0 < a" "find_lap laps d a = Some r" "n = a"
      and t: "t = (telemetry_of_lap r a)
          \<lparr> track_status := Some (case TrackStatus r of None \<Rightarrow> 1 | Some t \<Rightarrow> t),
            car_telemetry := car d a \<rparr>"
      by (auto split: if_splits option.splits)
    from a(2) have "r \<in> set laps" and "Driver r = d \<and> LapNumber r = a"
      unfolding find_lap_def by (auto simp: find_Some_iff)
    with a t show ?thesis by (auto simp: telemetry_of_lap_def)
  qed
qed

lemma violation_entry:
  assumes "v \<in> set (analyze_track_limits_violations st)" and "v_telemetry_analysis v = Some vt"
  shows "\<exists>l d. v_lap v = Some l \<and> l \<noteq> 0 \<and> v_driver_abbreviation v = Some d
           \<and> analyze_violation_telemetry st d l = Some vt"
proof -
  from assms(1) obtain m where "v = make_violation st m"
    by (auto simp: analyze_track_limits_violations_def split: option.splits)
  with assms(2) show ?thesis
    by (auto simp: make_violation_def Let_def split: option.splits if_splits)
qed

text \<open>
  C4. With the lap data loaded, in every per-driver telemetry analysis attached to an
  incident with lap \<open>L\<close> the per-lap map has exactly the keys \<open>n\<close> with
  \<open>L - 2 \<le> n \<le> L + 2\<close>, \<open>n \<ge> 1\<close> for which the driver has a lap record (in ascending
  order), each entry taken from such a record; and the telemetry analysis attached to a
  track-limits violation with lap \<open>L\<close> has exactly the keys \<open>n\<close> with \<open>L - 1 \<le> n \<le> L + 1\<close>,
  \<open>n \<ge> 1\<close> for which the driver has a lap record. No key is below 1, and a lap without
  a record has no entry.
\<close>

theorem telemetry_window_laps:
  "lap_data st = Some laps \<longrightarrow>
     (\<forall>inc\<in>set (analyze_incidents car st). \<forall>(a, da)\<in>set (inc_telemetry_analysis inc).
        \<exists>l. inc_lap inc = Some l
          \<and> map fst (da_lap_data da) =
              filter (\<lambda>n. 1 \<le> n \<and> (\<exists>r\<in>set laps. Driver r = a \<and> LapNumber r = n))
                [l - 2, l - 1, l, l + 1, l + 2]
          \<and> fst ` set (da_lap_data da) =
              {n \<in> {l - 2 .. l + 2}. 1 \<le> n \<and> (\<exists>r\<in>set laps. Driver r = a \<and> LapNumber r = n)}
          \<and> (\<forall>(n, t)\<in>set (da_lap_data da). 1 \<le> n \<and> lap_number t = n
                \<and> (\<exists>r\<in>set laps. Driver r = a \<and> LapNumber r = n
                      \<and> position t = Position r \<and> speed_fl t = SpeedFL r)))
   \<and> (\<forall>v\<in>set (analyze_track_limits_violations st). \<forall>vt. v_telemetry_analysis v = Some vt \<longrightarrow>
        (\<exists>l d. v_lap v = Some l \<and> v_driver_abbreviation v = Some d
          \<and> map fst (vt_lap_data vt) =
              filter (\<lambda>n. 1 \<le> n \<and> (\<exists>r\<in>set laps. Driver r = d \<and> LapNumber r = n))
                [l - 1, l, l + 1]
          \<and> fst ` set (vt_lap_data vt) =
              {n \<in> {l - 1 .. l + 1}. 1 \<le> n \<and> (\<exists>r\<in>set laps. Driver r = d \<and> LapNumber r = n)}))"
proof (intro impI conjI ballI allI)
  fix inc x
  assume l: "lap_data st = Some laps" and i: "inc \<in> set (analyze_incidents car st)"
    and x: "x \<in> set (inc_telemetry_analysis inc)"
  obtain a da where ada: "x = (a, da)" by (cases x)
  from incident_entry [OF i x [unfolded ada]] l obtain L
    where L: "inc_lap inc = Some L"
      and w: "da_lap_data da = incident_window car laps a [L - 2, L - 1, L, L + 1, L + 2]"
    by auto
  have k: "map fst (da_lap_data da) =
              filter (\<lambda>n. 1 \<le> n \<and> (\<exists>r\<in>set laps. Driver r = a \<and> LapNumber r = n))
                [L - 2, L - 1, L, L + 1, L + 2]"
    unfolding w incident_window_keys find_lap_exists
    by (rule filter_cong) auto
  have "fst ` set (da_lap_data da) = set (map fst (da_lap_data da))" by simp
  also have "\<dots> = {n \<in> {L - 2 .. L + 2}. 1 \<le> n \<and> (\<exists>r\<in>set laps. Driver r = a \<and> LapNumber r = n)}"
    unfolding k set_filter window_five ..
  finally have s: "fst ` set (da_lap_data da) =
      {n \<in> {L - 2 .. L + 2}. 1 \<le> n \<and> (\<exists>r\<in>set laps. Driver r = a \<and> LapNumber r = n)}" .
  have e: "\<forall>(n, t)\<in>set (da_lap_data da). 1 \<le> n \<and> lap_number t = n
                \<and> (\<exists>r\<in>set laps. Driver r = a \<and> LapNumber r = n
                      \<and> position t = Position r \<and> speed_fl t = SpeedFL r)"
    unfolding w using incident_window_entries [of _ _ car laps a] by blast
  from L k s e
  show "case x of (a, da) \<Rightarrow>
        \<exists>l. inc_lap inc = Some l
          \<and> map fst (da_lap_data da) =
              filter (\<lambda>n. 1 \<le> n \<and> (\<exists>r\<in>set laps. Driver r = a \<and> LapNumber r = n))
                [l - 2, l - 1, l, l + 1, l + 2]
          \<and> fst ` set (da_lap_data da) =
              {n \<in> {l - 2 .. l + 2}. 1 \<le> n \<and> (\<exists>r\<in>set laps. Driver r = a \<and> LapNumber r = n)}
          \<and> (\<forall>(n, t)\<in>set (da_lap_data da). 1 \<le> n \<and> lap_number t = n
                \<and> (\<exists>r\<in>set laps. Driver r = a \<and> LapNumber r = n
                      \<and> position t = Position r \<and> speed_fl t = SpeedFL r))"
    unfolding ada prod.case by (intro exI [of _ L] conjI)
next
  fix v vt
  assume l: "lap_data st = Some laps" and v: "v \<in> set (analyze_track_limits_violations st)"
    and t: "v_telemetry_analysis v = Some vt"
  from violation_entry [OF v t] obtain L d
    where L: "v_lap v = Some L" "v_driver_abbreviation v = Some d"
      and a: "analyze_violation_telemetry st d L = Some vt"
    by blast
  from a l have w: "vt_lap_data vt = violation_window laps d [L - 1, L, L + 1]"
    by (auto simp: analyze_violation_telemetry_def Let_def simp del: violation_window.simps)
  have k: "map fst (vt_lap_data vt) =
              filter (\<lambda>n. 1 \<le> n \<and> (\<exists>r\<in>set laps. Driver r = d \<and> LapNumber r = n))
                [L - 1, L, L + 1]"
    unfolding w violation_window_keys find_lap_exists
    by (rule filter_cong) auto
  have "fst ` set (vt_lap_data vt) = set (map fst (vt_lap_data vt))" by simp
  also have "\<dots> = {n \<in> {L - 1 .. L + 1}. 1 \<le> n \<and> (\<exists>r\<in>set laps. Driver r = d \<and> LapNumber r = n)}"
    unfolding k set_filter window_three ..
  finally have s: "fst ` set (vt_lap_data vt) =
      {n \<in> {L - 1 .. L + 1}. 1 \<le> n \<and> (\<exists>r\<in>set laps. Driver r = d \<and> LapNumber r = n)}" .
  from L k s
  show "\<exists>l d. v_lap v = Some l \<and> v_driver_abbreviation v = Some d
          \<and> map fst (vt_lap_data vt) =
              filter (\<lambda>n. 1 \<le> n \<and> (\<exists>r\<in>set laps. Driver r = d \<and> LapNumber r = n))
                [l - 1, l, l + 1]
          \<and> fst ` set (vt_lap_data vt) =
              {n \<in> {l - 1 .. l + 1}. 1 \<le> n \<and> (\<exists>r\<in>set laps. Driver r = d \<and> LapNumber r = n)}"
    by (intro exI [of _ L] exI [of _ d] conjI)
qed

theorem telemetry_window_laps_witness:
  "lap_data ex_lap1_state = Some ex_lap1_laps
   \<and> map (\<lambda>i. (inc_lap i, map (\<lambda>x. (fst x, map fst (da_lap_data (snd x))))
                             (inc_telemetry_analysis i)))
         (analyze_incidents (\<lambda>d n. None) ex_lap1_state) = [(Some 1, [(''VER'', [1, 2])])]
   \<and> map (\<lambda>v. (v_lap v, v_driver_abbreviation v,
                 map_option (\<lambda>vt. map fst (vt_lap_data vt)) (v_telemetry_analysis v)))
         (analyze_track_limits_violations ex_lap1_state) = [(Some 1, Some ''HAM'', Some [1, 2])]
   \<and> (\<exists>inc\<in>set (analyze_incidents (\<lambda>d n. None) ex_lap1_state).
        \<exists>x\<in>set (inc_telemetry_analysis inc). inc_lap inc = Some 1 \<and> fst x = ''VER''
          \<and> fst ` set (da_lap_data (snd x)) =
              {n \<in> {1 - 2 .. 1 + 2}. 1 \<le> n
                 \<and> (\<exists>r\<in>set ex_lap1_laps. Driver r = ''VER'' \<and> LapNumber r = n)})"
proof -
  have l: "lap_data ex_lap1_state = Some ex_lap1_laps" by (simp add: ex_lap1_state_def)
  have e1: "map (\<lambda>i. (inc_lap i, map (\<lambda>x. (fst x, map fst (da_lap_data (snd x))))
                             (inc_telemetry_analysis i)))
         (analyze_incidents (\<lambda>d n. None) ex_lap1_state) = [(Some 1, [(''VER'', [1, 2])])]"
    by code_simp
  have e2: "map (\<lambda>v. (v_lap v, v_driver_abbreviation v,
                 map_option (\<lambda>vt. map fst (vt_lap_data vt)) (v_telemetry_analysis v)))
         (analyze_track_limits_violations ex_lap1_state) = [(Some 1, Some ''HAM'', Some [1, 2])]"
    by code_simp
  from map_eq_Cons_member [OF e1] obtain inc
    where inc: "inc \<in> set (analyze_incidents (\<lambda>d n. None) ex_lap1_state)"
      and il: "inc_lap inc = Some 1"
      and m2: "map (\<lambda>x. (fst x, map fst (da_lap_data (snd x)))) (inc_telemetry_analysis inc)
                 = [(''VER'', [1, 2])]"
    by auto
  from map_eq_Cons_member [OF m2] obtain x
    where x: "x \<in> set (inc_telemetry_analysis inc)" and fx: "fst x = ''VER''"
    by auto
  note r = telemetry_window_laps [of ex_lap1_state ex_lap1_laps "\<lambda>d n. None",
      THEN mp, OF l, THEN conjunct1, THEN bspec, OF inc, THEN bspec, OF x]
  from r obtain L where "inc_lap inc = Some L"
    and "fst ` set (da_lap_data (snd x)) =
              {n \<in> {L - 2 .. L + 2}. 1 \<le> n
                 \<and> (\<exists>r\<in>set ex_lap1_laps. Driver r = fst x \<and> LapNumber r = n)}"
    unfolding case_prod_beta by blast
  with il fx have "fst ` set (da_lap_data (snd x)) =
              {n \<in> {1 - 2 .. 1 + 2}. 1 \<le> n
                 \<and> (\<exists>r\<in>set ex_lap1_laps. Driver r = ''VER'' \<and> LapNumber r = n)}"
    by (simp only: option.inject)
  with inc x il fx have "\<exists>inc\<in>set (analyze_incidents (\<lambda>d n. None) ex_lap1_state).
        \<exists>x\<in>set (inc_telemetry_analysis inc). inc_lap inc = Some 1 \<and> fst x = ''VER''
          \<and> fst ` set (da_lap_data (snd x)) =
              {n \<in> {1 - 2 .. 1 + 2}. 1 \<le> n
                 \<and> (\<exists>r\<in>set ex_lap1_laps. Driver r = ''VER'' \<and> LapNumber r = n)}"
    by (intro bexI [of _ inc] bexI [of _ x] conjI)
  with l e1 e2 show ?thesis by (intro conjI)
qed

lemma incident_anomalies_of_window:
  assumes "distinct (map fst td)"
  shows "anomalies (analyze_telemetry_patterns td l) =
     (case (Option.bind (map_of td l) speed_fl, Option.bind (map_of td (l - 1)) speed_fl) of
        (Some cur, Some prv) \<Rightarrow> if 20 < prv - cur then [SpeedDrop (prv - cur)] else []
      | _ \<Rightarrow> [])
     @ (case (Option.bind (map_of td l) position, Option.bind (map_of td (l - 1)) position) of
          (Some cur, Some prv) \<Rightarrow> if 0 < cur - prv then [PositionDrop (cur - prv)] else []
        | _ \<Rightarrow> [])"
proof -
  let ?sp = "speeds_of td" and ?ps = "positions_of td"
  have len: "2 \<le> length ?sp"
    if "map_of ?sp l = Some u" and "map_of ?sp (l - 1) = Some v" for u v
    using two_keys_length [OF that] by simp
  have len': "2 \<le> length ?ps"
    if "map_of ?ps l = Some u" and "map_of ?ps (l - 1) = Some v" for u v
    using two_keys_length [OF that] by simp
  have a: "(if 2 \<le> length ?sp
            then (case (map_of ?sp l, map_of ?sp (l - 1)) of
                    (Some cur, Some prv) \<Rightarrow>
                      (let speed_drop = prv - cur
                       in if speed_drop > 20 then [SpeedDrop speed_drop] else [])
                  | _ \<Rightarrow> [])
            else [])
         = (case (map_of ?sp l, map_of ?sp (l - 1)) of
              (Some cur, Some prv) \<Rightarrow> if 20 < prv - cur then [SpeedDrop (prv - cur)] else []
            | _ \<Rightarrow> [])"
    using len by (auto simp: Let_def split: option.splits)
  have b: "(if 2 \<le> length ?ps
            then (case (map_of ?ps l, map_of ?ps (l - 1)) of
                    (Some cur, Some prv) \<Rightarrow>
                      (let position_drop = cur - prv
                       in if position_drop > 0 then [PositionDrop position_drop] else [])
                  | _ \<Rightarrow> [])
            else [])
         = (case (map_of ?ps l, map_of ?ps (l - 1)) of
              (Some cur, Some prv) \<Rightarrow> if 0 < cur - prv then [PositionDrop (cur - prv)] else []
            | _ \<Rightarrow> [])"
    using len' by (auto simp: Let_def split: option.splits)
  have "anomalies (analyze_telemetry_patterns td l) =
      (case (map_of ?sp l, map_of ?sp (l - 1)) of
              (Some cur, Some prv) \<Rightarrow> if 20 < prv - cur then [SpeedDrop (prv - cur)] else []
            | _ \<Rightarrow> [])
      @ (case (map_of ?ps l, map_of ?ps (l - 1)) of
              (Some cur, Some prv) \<Rightarrow> if 0 < cur - prv then [PositionDrop (cur - prv)] else []
            | _ \<Rightarrow> [])"
    unfolding a [symmetric] b [symmetric]
    by (simp add: analyze_telemetry_patterns_def Let_def)
  then show ?thesis
    unfolding speeds_lookup [OF assms] positions_lookup [OF assms] .
qed

lemma incident_speed_of_window:
  assumes "2 \<le> length (speeds_of td)"
  shows "an_speed (analyze_telemetry_patterns td l) =
     Some \<lparr> max_speed = Max (set (map snd (speeds_of td))),
            min_speed = Min (set (map snd (speeds_of td))),
            speed_variance = Max (set (map snd (speeds_of td))) - Min (set (map snd (speeds_of td))),
            incident_lap_speed = map_of (speeds_of td) l \<rparr>"
proof -
  from assms have "map snd (speeds_of td) \<noteq> []" by auto
  from py_max_Max [OF this] py_min_Min [OF this] assms show ?thesis
    by (simp add: analyze_telemetry_patterns_def Let_def)
qed

lemma speeds_of_distinct: "distinct (map fst td) \<Longrightarrow> distinct (map fst (speeds_of td))"
  unfolding speeds_of_def by (rule map_filter_Pair_distinct)

text \<open>
  C5. With the lap data loaded, take a per-driver analysis attached to an incident with
  lap \<open>l\<close>. When at least two laps of the window \<open>l - 2 .. l + 2\<close> have a finish-line
  speed for the driver, the speed statistics are the maximum and the minimum of those
  speeds, their difference as the variance, and the speed of lap \<open>l\<close> (none if that lap
  has none). The anomaly list holds a speed drop exactly when laps \<open>l\<close> and \<open>l - 1\<close> both
  have a speed and the speed fell by more than 20, followed by a position drop exactly
  when both laps have a position and the position number rose; nothing else is listed.
\<close>

theorem incident_speed_statistics_and_anomalies:
  "lap_data st = Some laps \<and> inc \<in> set (analyze_incidents car st)
     \<and> (a, da) \<in> set (inc_telemetry_analysis inc) \<and> inc_lap inc = Some l \<longrightarrow>
   (2 \<le> card {n \<in> {l - 2 .. l + 2}. finish_line_speed laps a n \<noteq> None} \<longrightarrow>
      an_speed (da_analysis da) =
        Some \<lparr> max_speed = Max {v. \<exists>n\<in>{l - 2 .. l + 2}. finish_line_speed laps a n = Some v},
               min_speed = Min {v. \<exists>n\<in>{l - 2 .. l + 2}. finish_line_speed laps a n = Some v},
               speed_variance =
                 Max {v. \<exists>n\<in>{l - 2 .. l + 2}. finish_line_speed laps a n = Some v}
                 - Min {v. \<exists>n\<in>{l - 2 .. l + 2}. finish_line_speed laps a n = Some v},
               incident_lap_speed = finish_line_speed laps a l \<rparr>)
   \<and> anomalies (da_analysis da) =
       (case (finish_line_speed laps a l, finish_line_speed laps a (l - 1)) of
          (Some cur, Some prv) \<Rightarrow> if 20 < prv - cur then [SpeedDrop (prv - cur)] else []
        | _ \<Rightarrow> [])
       @ (case (lap_position laps a l, lap_position laps a (l - 1)) of
            (Some cur, Some prv) \<Rightarrow> if 0 < cur - prv then [PositionDrop (cur - prv)] else []
          | _ \<Rightarrow> [])"
proof (intro impI conjI)
  assume h: "lap_data st = Some laps \<and> inc \<in> set (analyze_incidents car st)
     \<and> (a, da) \<in> set (inc_telemetry_analysis inc) \<and> inc_lap inc = Some l"
  let ?ns = "[l - 2, l - 1, l, l + 1, l + 2]"
  let ?W = "incident_window car laps a ?ns"
  let ?sp = "speeds_of ?W"
  from h incident_entry [of inc car st a da]
  have an: "da_analysis da = analyze_telemetry_patterns ?W l"
    by auto
  have dW: "distinct (map fst ?W)"
    by (rule incident_window_distinct) simp
  have look: "map_of ?sp n = (if n \<in> {l - 2 .. l + 2} then finish_line_speed laps a n else None)" for n
    unfolding speeds_lookup [OF dW] incident_window_speed window_five ..
  show "anomalies (da_analysis da) =
       (case (finish_line_speed laps a l, finish_line_speed laps a (l - 1)) of
          (Some cur, Some prv) \<Rightarrow> if 20 < prv - cur then [SpeedDrop (prv - cur)] else []
        | _ \<Rightarrow> [])
       @ (case (lap_position laps a l, lap_position laps a (l - 1)) of
            (Some cur, Some prv) \<Rightarrow> if 0 < cur - prv then [PositionDrop (cur - prv)] else []
          | _ \<Rightarrow> [])"
    unfolding an incident_anomalies_of_window [OF dW] incident_window_speed
      incident_window_position
    by simp
  assume c: "2 \<le> card {n \<in> {l - 2 .. l + 2}. finish_line_speed laps a n \<noteq> None}"
  have "{n. map_of ?sp n \<noteq> None} = {n \<in> {l - 2 .. l + 2}. finish_line_speed laps a n \<noteq> None}"
    unfolding look by auto
  with distinct_keys_length [OF speeds_of_distinct [OF dW]] c
  have len: "2 \<le> length ?sp" by simp
  have "{v. \<exists>n. map_of ?sp n = Some v}
          = {v. \<exists>n\<in>{l - 2 .. l + 2}. finish_line_speed laps a n = Some v}"
    unfolding look by auto
  with distinct_keys_values [OF speeds_of_distinct [OF dW]]
  have vals: "set (map snd ?sp) = {v. \<exists>n\<in>{l - 2 .. l + 2}. finish_line_speed laps a n = Some v}"
    by simp
  have "map_of ?sp l = finish_line_speed laps a l"
    unfolding look by simp
  with incident_speed_of_window [OF len, of l] vals
  show "an_speed (da_analysis da) =
        Some \<lparr> max_speed = Max {v. \<exists>n\<in>{l - 2 .. l + 2}. finish_line_speed laps a n = Some v},
               min_speed = Min {v. \<exists>n\<in>{l - 2 .. l + 2}. finish_line_speed laps a n = Some v},
               speed_variance =
                 Max {v. \<exists>n\<in>{l - 2 .. l + 2}. finish_line_speed laps a n = Some v}
                 - Min {v. \<exists>n\<in>{l - 2 .. l + 2}. finish_line_speed laps a n = Some v},
               incident_lap_speed = finish_line_speed laps a l \<rparr>"
    unfolding an by (simp only:)
qed

theorem incident_speed_statistics_and_anomalies_witness:
  "lap_data ex_spin_state = Some ex_spin_laps
   \<and> 2 \<le> card {n \<in> {12 - 2 .. 12 + 2}. finish_line_speed ex_spin_laps ''VER'' n \<noteq> None}
   \<and> map (\<lambda>i. (inc_lap i,
                 map (\<lambda>x. (fst x, an_speed (da_analysis (snd x)), anomalies (da_analysis (snd x))))
                   (inc_telemetry_analysis i)))
         (analyze_incidents (\<lambda>d n. None) ex_spin_state)
       = [(Some 12,
           [(''VER'',
             Some \<lparr> max_speed = 305, min_speed = 270, speed_variance = 35,
                    incident_lap_speed = Some 270 \<rparr>,
             [SpeedDrop 35, PositionDrop 3])])]
   \<and> Max {v. \<exists>n\<in>{12 - 2 .. 12 + 2}. finish_line_speed ex_spin_laps ''VER'' n = Some v} = 305
   \<and> Min {v. \<exists>n\<in>{12 - 2 .. 12 + 2}. finish_line_speed ex_spin_laps ''VER'' n = Some v} = 270"
proof -
  let ?S = "{n \<in> {12 - 2 .. 12 + 2}. finish_line_speed ex_spin_laps ''VER'' n \<noteq> None}"
  let ?V = "{v. \<exists>n\<in>{12 - 2 .. 12 + 2}. finish_line_speed ex_spin_laps ''VER'' n = Some v}"
  have l: "lap_data ex_spin_state = Some ex_spin_laps" by (simp add: ex_spin_state_def)
  have f11: "finish_line_speed ex_spin_laps ''VER'' 11 = Some 305"
    and f12: "finish_line_speed ex_spin_laps ''VER'' 12 = Some 270"
    by code_simp+
  have "{11, 12} \<subseteq> ?S" by (simp add: f11 f12)
  moreover have "finite ?S" by (rule finite_subset [of _ "{12 - 2 .. 12 + 2}"]) auto
  ultimately have "card {11, 12 :: int} \<le> card ?S" by (rule card_mono [rotated])
  then have c: "2 \<le> card ?S" by simp
  have e1: "map (\<lambda>i. (inc_lap i,
                 map (\<lambda>x. (fst x, an_speed (da_analysis (snd x)), anomalies (da_analysis (snd x))))
                   (inc_telemetry_analysis i)))
         (analyze_incidents (\<lambda>d n. None) ex_spin_state)
       = [(Some 12,
           [(''VER'',
             Some \<lparr> max_speed = 305, min_speed = 270, speed_variance = 35,
                    incident_lap_speed = Some 270 \<rparr>,
             [SpeedDrop 35, PositionDrop 3])])]"
    by code_simp
  from map_eq_Cons_member [OF e1] obtain inc
    where inc: "inc \<in> set (analyze_incidents (\<lambda>d n. None) ex_spin_state)"
      and il: "inc_lap inc = Some 12"
      and m2: "map (\<lambda>x. (fst x, an_speed (da_analysis (snd x)), anomalies (da_analysis (snd x))))
                   (inc_telemetry_analysis inc)
               = [(''VER'',
                   Some \<lparr> max_speed = 305, min_speed = 270, speed_variance = 35,
                          incident_lap_speed = Some 270 \<rparr>,
                   [SpeedDrop 35, PositionDrop 3])]"
    by auto
  from map_eq_Cons_member [OF m2] obtain x
    where x: "x \<in> set (inc_telemetry_analysis inc)" and fx: "fst x = ''VER''"
      and sx: "an_speed (da_analysis (snd x)) =
                 Some \<lparr> max_speed = 305, min_speed = 270, speed_variance = 35,
                        incident_lap_speed = Some 270 \<rparr>"
    by auto
  from x fx have x': "(''VER'', snd x) \<in> set (inc_telemetry_analysis inc)"
    by (metis prod.collapse)
  from l inc x' il
  have h: "lap_data ex_spin_state = Some ex_spin_laps
     \<and> inc \<in> set (analyze_incidents (\<lambda>d n. None) ex_spin_state)
     \<and> (''VER'', snd x) \<in> set (inc_telemetry_analysis inc) \<and> inc_lap inc = Some 12"
    by (intro conjI)
  note r = incident_speed_statistics_and_anomalies
    [of ex_spin_state ex_spin_laps inc "\<lambda>d n. None" "''VER''" "snd x" 12,
     THEN mp, OF h, THEN conjunct1, THEN mp, OF c]
  from r sx have "Max ?V = 305 \<and> Min ?V = 270" by simp
  with l c e1 show ?thesis by (intro conjI) simp_all
qed

end
